theory Spec2Isabelle
  imports Complex_Main "HOL-Library.Word" "HOL-Library.Log_Nat"
begin

section \<open>Data model\<close>

text \<open>
  JavaScript strings are sequences of UTF-16 code units; \<open>length\<close> and \<open>slice\<close> count
  code units. A number is represented by the rational it denotes; all numbers are finite.
  The layout functions take the rounding of their arithmetic as a parameter. The position
  update of a drag is written in exact arithmetic: what is stated of it concerns a second
  update with the same arguments, whose differences are zero.
\<close>

type_synonym jschar = "16 word"
type_synonym jsstring = "jschar list"

definition js :: "string \<Rightarrow> jsstring" where
  "js s = map (\<lambda>c. of_nat (of_char c)) s"

datatype Role = User | Assistant

record ChatMessage =
  role :: Role
  content :: jsstring

text \<open>
  \<open>interface ChatNode\<close>: the fields other than \<open>children\<close> form the record
  \<open>ChatData\<close> (the element type of \<open>flatChats\<close>, \<open>Omit<ChatNode, "children">\<close>);
  optional fields are options, \<open>None\<close> standing for \<open>undefined\<close>.
\<close>

record ChatData =
  id :: int
  quotedText :: "jsstring option"
  x :: rat
  y :: rat
  height :: rat
  manualPosition :: "bool option"
  conversation :: "ChatMessage list"
  isThinking :: "bool option"

datatype ChatNode = Node (data: ChatData) (children: "ChatNode list")

definition truthyFlag :: "bool option \<Rightarrow> bool" where
  "truthyFlag b = (b = Some True)"

lemma children_size_node: "size_list size (children node) < size node"
  by (cases node) simp

lemma children_size [termination_simp]:
  "node \<in> set nodes \<Longrightarrow> size_list size (children node) < size_list size nodes"
proof (induction nodes)
  case Nil
  then show ?case by simp
next
  case (Cons n ns)
  show ?case
  proof (cases "node = n")
    case True
    then show ?thesis using children_size_node [of n] by simp
  next
    case False
    with Cons show ?thesis by simp
  qed
qed

section \<open>truncateSelection\<close>

definition LF :: jschar where "LF = 10"
definition CR :: jschar where "CR = 13"
definition SPACE :: jschar where "SPACE = 32"
definition ELLIPSIS :: jschar where "ELLIPSIS = 8230"

text \<open>
  The code units removed by \<open>String.prototype.trim\<close>: ECMAScript's WhiteSpace
  (TAB, VT, FF, ZWNBSP and the space separators) and LineTerminator (LF, CR, LS, PS).
\<close>

definition isTrimChar :: "jschar \<Rightarrow> bool" where
  "isTrimChar c = (c \<in> {9, 10, 11, 12, 13, 32, 160, 5760, 8232, 8233, 8239, 8287, 12288, 65279}
                  \<or> (8192 \<le> c \<and> c \<le> 8202))"

definition trim :: "jsstring \<Rightarrow> jsstring" where
  "trim s = rev (dropWhile isTrimChar (rev (dropWhile isTrimChar s)))"

text \<open>
  \<open>split(/\r?\n/)\<close>: the scan looks for the leftmost match from each position; the
  pattern matches CR LF, or a LF alone, and never the empty string. \<open>cur\<close> holds the
  code units of the current piece, reversed.
\<close>

fun splitLinesFrom :: "jsstring \<Rightarrow> jsstring \<Rightarrow> jsstring list" where
  "splitLinesFrom cur [] = [rev cur]"
| "splitLinesFrom cur (c # rest) =
     (if c = CR \<and> rest \<noteq> [] \<and> hd rest = LF then rev cur # splitLinesFrom [] (tl rest)
      else if c = LF then rev cur # splitLinesFrom [] rest
      else splitLinesFrom (c # cur) rest)"

definition splitLines :: "jsstring \<Rightarrow> jsstring list" where
  "splitLines s = splitLinesFrom [] s"

text \<open>\<open>Array.prototype.join\<close> with a separator.\<close>

fun join :: "jsstring \<Rightarrow> jsstring list \<Rightarrow> jsstring" where
  "join sep [] = []"
| "join sep [l] = l"
| "join sep (l # ls) = l @ sep @ join sep ls"

definition maxChars :: nat where "maxChars = 240"

definition truncateSelection :: "jsstring \<Rightarrow> jsstring" where
  "truncateSelection text =
     (let lines = filter (\<lambda>l. l \<noteq> []) (splitLines (trim text));
          firstTwo = join [SPACE] (take 2 lines)
      in if length firstTwo > maxChars then take maxChars firstTwo @ [ELLIPSIS] else firstTwo)"

section \<open>The conversation tree and its mutations\<close>

text \<open>The initial value of the \<open>chatTree\<close> state.\<close>

definition initialTree :: "ChatNode list" where
  "initialTree =
     [Node \<lparr>id = 1, quotedText = None, x = 725, y = 500, height = 200,
             manualPosition = None, conversation = [], isThinking = None\<rparr> []]"

text \<open>\<open>flatChats\<close>: a left-to-right \<open>reduce\<close> that appends each node's own fields,
  then the flattening of its children.\<close>

fun flatten :: "ChatNode list \<Rightarrow> ChatData list" where
  "flatten nodes = foldl (\<lambda>acc node. acc @ data node # flatten (children node)) [] nodes"

declare flatten.simps [simp del]

text \<open>
  \<open>findNode\<close> of \<open>handleNewMessage\<close>: the first node with the id,
  in pre-order.
\<close>

fun findNode :: "ChatNode list \<Rightarrow> int \<Rightarrow> ChatNode option" where
  "findNode [] i = None"
| "findNode (Node d cs # rest) i =
     (if id d = i then Some (Node d cs)
      else case findNode cs i of
             Some found \<Rightarrow> Some found
           | None \<Rightarrow> findNode rest i)"

text \<open>
  \<open>addChild\<close> of \<open>handleCreateFromSelection\<close> and
  \<open>handleBranch\<close>.
\<close>

fun addChild :: "int \<Rightarrow> ChatNode \<Rightarrow> ChatNode list \<Rightarrow> ChatNode list" where
  "addChild sourceChatId newNode nodes =
     map (\<lambda>node.
            if id (data node) = sourceChatId
            then Node (data node) (children node @ [newNode])
            else if length (children node) > 0
            then Node (data node) (addChild sourceChatId newNode (children node))
            else node) nodes"

declare addChild.simps [simp del]

text \<open>\<open>newId\<close> is the value of \<open>Date.now()\<close> at the call.\<close>

definition handleCreateFromSelection ::
  "int \<Rightarrow> int \<Rightarrow> jsstring \<Rightarrow> ChatNode list \<Rightarrow> ChatNode list" where
  "handleCreateFromSelection newId sourceChatId text currentTree =
     addChild sourceChatId
       (Node \<lparr>id = newId, quotedText = Some (truncateSelection text), x = 0, y = 0,
               height = 150, manualPosition = None, conversation = [],
               isThinking = None\<rparr> [])
       currentTree"

definition handleBranch :: "int \<Rightarrow> int \<Rightarrow> ChatNode list \<Rightarrow> ChatNode list" where
  "handleBranch newId sourceChatId currentTree =
     addChild sourceChatId
       (Node \<lparr>id = newId, quotedText = None, x = 0, y = 0,
               height = 150, manualPosition = None, conversation = [],
               isThinking = None\<rparr> [])
       currentTree"

text \<open>
  \<open>removeNode\<close> of \<open>handleDelete\<close>: filter, then rebuild every
  kept node.
\<close>

fun removeNode :: "int \<Rightarrow> ChatNode list \<Rightarrow> ChatNode list" where
  "removeNode chatId nodes =
     map (\<lambda>node. Node (data node) (removeNode chatId (children node)))
         (filter (\<lambda>node. id (data node) \<noteq> chatId) nodes)"

declare removeNode.simps [simp del]

definition handleDelete :: "int \<Rightarrow> ChatNode list \<Rightarrow> ChatNode list" where
  "handleDelete chatId currentTree = removeNode chatId currentTree"

text \<open>
  \<open>moveChildren\<close> and \<open>updatePosition\<close> of
  \<open>handleChatPositionChange\<close>.
\<close>

fun moveChildren :: "rat \<Rightarrow> rat \<Rightarrow> ChatNode list \<Rightarrow> ChatNode list" where
  "moveChildren dx dy cs =
     map (\<lambda>child. Node ((data child)\<lparr>x := x (data child) + dx, y := y (data child) + dy\<rparr>)
                      (moveChildren dx dy (children child))) cs"

declare moveChildren.simps [simp del]

fun updatePosition :: "int \<Rightarrow> rat \<Rightarrow> rat \<Rightarrow> ChatNode list \<Rightarrow> ChatNode list" where
  "updatePosition chatId nx ny nodes =
     map (\<lambda>node.
            if id (data node) = chatId
            then (let dx = nx - x (data node);
                      dy = ny - y (data node)
                  in Node ((data node)\<lparr>x := nx, y := ny, manualPosition := Some True\<rparr>)
                          (moveChildren dx dy (children node)))
            else Node (data node) (updatePosition chatId nx ny (children node))) nodes"

declare updatePosition.simps [simp del]

definition handleChatPositionChange ::
  "int \<Rightarrow> rat \<Rightarrow> rat \<Rightarrow> ChatNode list \<Rightarrow> ChatNode list" where
  "handleChatPositionChange chatId nx ny currentTree = updatePosition chatId nx ny currentTree"

text \<open>The four tree updates of \<open>handleNewMessage\<close>, each mapped over the roots.\<close>

fun appendMessage :: "int \<Rightarrow> jsstring \<Rightarrow> ChatNode \<Rightarrow> ChatNode" where
  "appendMessage chatId message (Node d cs) =
     (if id d = chatId
      then Node (d\<lparr>conversation := conversation d @ [\<lparr>role = User, content = message\<rparr>],
                  isThinking := Some True\<rparr>) cs
      else Node d (map (appendMessage chatId message) cs))"

fun setErrorState :: "int \<Rightarrow> ChatNode \<Rightarrow> ChatNode" where
  "setErrorState chatId (Node d cs) =
     (if id d = chatId
      then Node (d\<lparr>isThinking := Some False\<rparr>) cs
      else Node d (map (setErrorState chatId) cs))"

fun addAssistantPlaceholder :: "int \<Rightarrow> ChatNode \<Rightarrow> ChatNode" where
  "addAssistantPlaceholder chatId (Node d cs) =
     (if id d = chatId
      then Node (d\<lparr>conversation := conversation d @ [\<lparr>role = Assistant, content = []\<rparr>],
                  isThinking := Some False\<rparr>) cs
      else Node d (map (addAssistantPlaceholder chatId) cs))"

text \<open>
  \<open>lastMessage\<close> is \<open>undefined\<close> for an empty conversation, and then
  \<open>lastMessage?.role === "assistant"\<close> is false; \<open>slice(0, -1)\<close> is \<open>butlast\<close>.
\<close>

fun appendResponseChunk :: "int \<Rightarrow> jsstring \<Rightarrow> ChatNode \<Rightarrow> ChatNode" where
  "appendResponseChunk chatId chunkValue (Node d cs) =
     (if id d = chatId \<and> conversation d \<noteq> [] \<and> role (last (conversation d)) = Assistant
      then Node (d\<lparr>conversation :=
                    butlast (conversation d) @
                    [(last (conversation d))\<lparr>content := content (last (conversation d)) @ chunkValue\<rparr>]\<rparr>)
                cs
      else Node d (map (appendResponseChunk chatId chunkValue) cs))"

text \<open>
  The read loop of \<open>handleNewMessage\<close> on a stream that ends: each read delivers a
  chunk, which \<open>decode\<close> turns into text and which is appended at once; the last read
  reports \<open>done\<close> with no value, \<open>decode(undefined)\<close> is the empty string, and that
  empty string is appended too.
\<close>

fun readLoop :: "('b \<Rightarrow> jsstring) \<Rightarrow> int \<Rightarrow> 'b list \<Rightarrow> ChatNode list \<Rightarrow> ChatNode list" where
  "readLoop decode chatId [] tree = map (appendResponseChunk chatId []) tree"
| "readLoop decode chatId (v # reads) tree =
     readLoop decode chatId reads (map (appendResponseChunk chatId (decode v)) tree)"

text \<open>The successful path after the response arrived: placeholder, then the read loop.\<close>

definition streamResponse ::
  "('b \<Rightarrow> jsstring) \<Rightarrow> int \<Rightarrow> 'b list \<Rightarrow> ChatNode list \<Rightarrow> ChatNode list" where
  "streamResponse decode chatId reads tree =
     readLoop decode chatId reads (map (addAssistantPlaceholder chatId) tree)"

section \<open>The layout effect\<close>

definition CARD_WIDTH :: rat where "CARD_WIDTH = 700"
definition HORIZONTAL_SPACING :: rat where "HORIZONTAL_SPACING = 100"
definition VERTICAL_SPACING :: rat where "VERTICAL_SPACING = 80"

datatype LayoutMode = Horizontal | Vertical

text \<open>
  The effect works on a deep copy of the tree and sets the flag \<open>hasChanges\<close> whenever
  it writes; the flag is threaded through the functions below. The document is
  represented by \<open>clientHeights\<close>: the \<open>clientHeight\<close> of the element found for a chat
  id, \<open>None\<close> when \<open>querySelector\<close> finds none.
\<close>

fun updateHeights ::
  "(int \<Rightarrow> rat option) \<Rightarrow> ChatNode list \<Rightarrow> bool \<Rightarrow> bool \<times> ChatNode list" where
  "updateHeights clientHeights [] hasChanges = (hasChanges, [])"
| "updateHeights clientHeights (Node d cs # rest) hasChanges =
     (let (hc1, d1) =
            (case clientHeights (id d) of
               Some clientHeight \<Rightarrow>
                 if clientHeight > 0 \<and> height d \<noteq> clientHeight
                 then (True, d\<lparr>height := clientHeight\<rparr>)
                 else (hasChanges, d)
             | None \<Rightarrow> (hasChanges, d));
          (hc2, cs') = updateHeights clientHeights cs hc1;
          (hc3, rest') = updateHeights clientHeights rest hc2
      in (hc3, Node d1 cs' # rest'))"

text \<open>
  The positions are JavaScript numbers, and every \<open>+\<close>, \<open>-\<close> and \<open>/\<close> of the layout
  code rounds its result to a number. A number is represented by the rational it
  denotes, and \<open>fl r\<close> stands for the number that an exact result \<open>r\<close> is rounded to
  (for binary64, the nearest representable value). The layout functions take \<open>fl\<close> as
  a parameter and nothing is assumed of it; with \<open>fl = (\<lambda>r. r)\<close> the arithmetic is
  exact. The operations are rounded one by one in the order in which the source
  evaluates them: \<open>a + b + c\<close> is \<open>(a + b) + c\<close>, and \<open>o += a + b\<close> is \<open>o + (a + b)\<close>.
  Unary minus, \<open>Math.max\<close> and the comparisons are exact. Results that overflow and
  values that are not numbers are outside the model.
\<close>

subsection \<open>Vertical mode\<close>

fun getSubtreeWidth :: "(rat \<Rightarrow> rat) \<Rightarrow> ChatNode \<Rightarrow> rat" where
  "getSubtreeWidth fl (Node d cs) =
     (if length cs = 0 then CARD_WIDTH
      else foldl (\<lambda>acc w. fl (fl (acc + w) + HORIZONTAL_SPACING)) (- HORIZONTAL_SPACING)
             (map (getSubtreeWidth fl) cs))"

text \<open>
  \<open>positionChildren\<close> and the body of its \<open>forEach\<close>; \<open>p\<close> holds the fields of the
  parent node, whose position is final when its children are visited.
\<close>

fun positionChildrenV :: "(rat \<Rightarrow> rat) \<Rightarrow> ChatNode \<Rightarrow> bool \<Rightarrow> bool \<times> ChatNode"
  and forEachChildV ::
    "(rat \<Rightarrow> rat) \<Rightarrow> ChatData \<Rightarrow> rat \<Rightarrow> ChatNode list \<Rightarrow> bool \<Rightarrow> bool \<times> ChatNode list" where
  "positionChildrenV fl (Node d cs) hasChanges =
     (if length cs = 0 then (hasChanges, Node d cs)
      else
        let totalWidth = foldl (\<lambda>acc w. fl (fl (acc + w) + HORIZONTAL_SPACING))
                           (- HORIZONTAL_SPACING) (map (getSubtreeWidth fl) cs);
            xOffset = fl (fl (x d + fl (CARD_WIDTH / 2)) - fl (totalWidth / 2));
            (hc, cs') = forEachChildV fl d xOffset cs hasChanges
        in (hc, Node d cs'))"
| "forEachChildV fl p xOffset [] hasChanges = (hasChanges, [])"
| "forEachChildV fl p xOffset (Node cd ccs # rest) hasChanges =
     (let childWidth = getSubtreeWidth fl (Node cd ccs);
          newX = fl (fl (xOffset + fl (childWidth / 2)) - fl (CARD_WIDTH / 2));
          newY = fl (fl (y p + height p) + VERTICAL_SPACING);
          (hc1, cd1) =
            (if \<not> truthyFlag (manualPosition cd) \<and> (x cd \<noteq> newX \<or> y cd \<noteq> newY)
             then (True, cd\<lparr>x := newX, y := newY\<rparr>)
             else (hasChanges, cd));
          (hc2, child') = positionChildrenV fl (Node cd1 ccs) hc1;
          (hc3, rest') =
            forEachChildV fl p (fl (xOffset + fl (childWidth + HORIZONTAL_SPACING))) rest hc2
      in (hc3, child' # rest'))"

fun layoutVertical :: "(rat \<Rightarrow> rat) \<Rightarrow> ChatNode list \<Rightarrow> bool \<Rightarrow> bool \<times> ChatNode list" where
  "layoutVertical fl [] hasChanges = (hasChanges, [])"
| "layoutVertical fl (rootNode # rest) hasChanges =
     (let (hc1, root') = positionChildrenV fl rootNode hasChanges;
          (hc2, rest') = layoutVertical fl rest hc1
      in (hc2, root' # rest'))"

subsection \<open>Horizontal mode\<close>

fun getSubtreeHeight :: "(rat \<Rightarrow> rat) \<Rightarrow> ChatNode \<Rightarrow> rat" where
  "getSubtreeHeight fl (Node d cs) =
     (if length cs = 0 then height d
      else
        let childrenHeight = foldl (\<lambda>acc h. fl (fl (acc + h) + VERTICAL_SPACING))
                               (- VERTICAL_SPACING) (map (getSubtreeHeight fl) cs)
        in max (height d) childrenHeight)"

fun positionChildrenH :: "(rat \<Rightarrow> rat) \<Rightarrow> ChatNode \<Rightarrow> bool \<Rightarrow> bool \<times> ChatNode"
  and forEachChildH ::
    "(rat \<Rightarrow> rat) \<Rightarrow> ChatData \<Rightarrow> rat \<Rightarrow> ChatNode list \<Rightarrow> bool \<Rightarrow> bool \<times> ChatNode list" where
  "positionChildrenH fl (Node d cs) hasChanges =
     (if length cs = 0 then (hasChanges, Node d cs)
      else
        let totalHeight = foldl (\<lambda>acc h. fl (fl (acc + h) + VERTICAL_SPACING))
                            (- VERTICAL_SPACING) (map (getSubtreeHeight fl) cs);
            yOffset = fl (fl (y d + fl (height d / 2)) - fl (totalHeight / 2));
            (hc, cs') = forEachChildH fl d yOffset cs hasChanges
        in (hc, Node d cs'))"
| "forEachChildH fl p yOffset [] hasChanges = (hasChanges, [])"
| "forEachChildH fl p yOffset (Node cd ccs # rest) hasChanges =
     (let childHeight = getSubtreeHeight fl (Node cd ccs);
          newX = fl (fl (x p + CARD_WIDTH) + HORIZONTAL_SPACING);
          newY = fl (fl (yOffset + fl (childHeight / 2)) - fl (height cd / 2));
          (hc1, cd1) =
            (if \<not> truthyFlag (manualPosition cd) \<and> (x cd \<noteq> newX \<or> y cd \<noteq> newY)
             then (True, cd\<lparr>x := newX, y := newY\<rparr>)
             else (hasChanges, cd));
          (hc2, child') = positionChildrenH fl (Node cd1 ccs) hc1;
          (hc3, rest') =
            forEachChildH fl p (fl (yOffset + fl (childHeight + VERTICAL_SPACING))) rest hc2
      in (hc3, child' # rest'))"

fun layoutHorizontal :: "(rat \<Rightarrow> rat) \<Rightarrow> ChatNode list \<Rightarrow> bool \<Rightarrow> bool \<times> ChatNode list" where
  "layoutHorizontal fl [] hasChanges = (hasChanges, [])"
| "layoutHorizontal fl (rootNode # rest) hasChanges =
     (let (hc1, root') = positionChildrenH fl rootNode hasChanges;
          (hc2, rest') = layoutHorizontal fl rest hc1
      in (hc2, root' # rest'))"

subsection \<open>One run of the effect\<close>

text \<open>
  \<open>layoutPass\<close> returns the flag and the copy after the heights and the positions were
  written; \<open>JSON.parse(JSON.stringify(chatTree))\<close> gives an equal tree. \<open>layoutEffect\<close>
  is the tree state after the effect: the copy replaces it only if the flag is set.
\<close>

definition layoutPass ::
  "(rat \<Rightarrow> rat) \<Rightarrow> (int \<Rightarrow> rat option) \<Rightarrow> LayoutMode \<Rightarrow> ChatNode list
   \<Rightarrow> bool \<times> ChatNode list" where
  "layoutPass fl clientHeights layoutMode chatTree =
     (let newTree = chatTree;
          (hc1, t1) = updateHeights clientHeights newTree False
      in if layoutMode = Horizontal then layoutHorizontal fl t1 hc1 else layoutVertical fl t1 hc1)"

definition layoutEffect ::
  "(rat \<Rightarrow> rat) \<Rightarrow> (int \<Rightarrow> rat option) \<Rightarrow> LayoutMode \<Rightarrow> ChatNode list \<Rightarrow> ChatNode list" where
  "layoutEffect fl clientHeights layoutMode chatTree =
     (let (hasChanges, newTree) = layoutPass fl clientHeights layoutMode chatTree
      in if hasChanges then newTree else chatTree)"

subsection \<open>The rounding of binary64 numbers\<close>

text \<open>
  The instance of \<open>fl\<close> for JavaScript numbers, which are IEEE 754 binary64 values: an
  exact result is rounded to the nearest value with a significand of 53 bits, a tie to
  the one whose last bit is zero; below \<open>2 powi (- 1022)\<close> the representable values
  are the multiples of \<open>2 powi (- 1074)\<close>. \<open>exponentOf r\<close> is the integer \<open>e\<close>
  with \<open>2 powi e \<le> \<bar>r\<bar>\<close> and \<open>\<bar>r\<bar> < 2 powi (e + 1)\<close>, found from the bit lengths
  of numerator and denominator. Results of magnitude \<open>2 ^ 1024\<close> or more, which a
  number cannot hold, are outside the model.
\<close>

definition exponentOf :: "rat \<Rightarrow> int" where
  "exponentOf r =
     (let (a, b) = quotient_of \<bar>r\<bar>;
          k = bitlen a - bitlen b
      in if \<bar>r\<bar> < 2 powi k then k - 1 else k)"

definition roundHalfEven :: "rat \<Rightarrow> int" where
  "roundHalfEven q =
     (let f = \<lfloor>q\<rfloor>; d = q - of_int f
      in if d < 1 / 2 then f else if 1 / 2 < d then f + 1 else if even f then f else f + 1)"

definition binary64 :: "rat \<Rightarrow> rat" where
  "binary64 r =
     (if r = 0 then 0
      else let ulp = 2 powi (max (exponentOf r - 52) (- 1074))
           in of_int (roundHalfEven (r / ulp)) * ulp)"

section \<open>The request handlers\<close>

text \<open>
  A parsed JSON request body. \<open>None\<close> of type \<open>json option\<close> stands for
  \<open>undefined\<close> (a missing field), or for a body that \<open>req.json()\<close> rejects. A number
  is given by its value after parsing; the handlers only test it for being zero.
\<close>

datatype json =
    JNull
  | JBool bool
  | JNum rat
  | JStr jsstring
  | JArr "json list"
  | JObj "(jsstring \<times> json) list"

text \<open>JavaScript truthiness of a JSON value, as tested by \<open>if (!prompt)\<close>.\<close>

fun truthy :: "json option \<Rightarrow> bool" where
  "truthy None = False"
| "truthy (Some JNull) = False"
| "truthy (Some (JBool b)) = b"
| "truthy (Some (JNum n)) = (n \<noteq> 0)"
| "truthy (Some (JStr s)) = (s \<noteq> [])"
| "truthy (Some (JArr vs)) = True"
| "truthy (Some (JObj kvs)) = True"

text \<open>Whether a value is a string (\<open>typeof v === "string"\<close>).\<close>

fun isString :: "json option \<Rightarrow> bool" where
  "isString (Some (JStr s)) = True"
| "isString v = False"

text \<open>Whether the spread \<open>...v\<close> works: arrays and strings are iterable, the other JSON
  values make it throw a TypeError.\<close>

fun iterable :: "json option \<Rightarrow> bool" where
  "iterable (Some (JArr vs)) = True"
| "iterable (Some (JStr s)) = True"
| "iterable v = False"

text \<open>
  Whether the conversion to a string works, which a template literal \<open>`${v}`\<close> and
  \<open>RegExp.prototype.test(v)\<close> apply to their operand. An object is converted by its
  \<open>toString\<close> method. A parsed object that has a key \<open>"toString"\<close> of its own
  hides the inherited method behind a value that cannot be called, \<open>valueOf\<close> returns
  the object itself, and the conversion throws a TypeError. An array is converted by
  \<open>join\<close>, which converts every element other than \<open>null\<close>. Strings, numbers,
  booleans, \<open>null\<close> and \<open>undefined\<close> always convert.
\<close>

fun toStringWorks :: "json \<Rightarrow> bool" where
  "toStringWorks (JObj kvs) = (js ''toString'' \<notin> fst ` set kvs)"
| "toStringWorks (JArr vs) = list_all toStringWorks vs"
| "toStringWorks v = True"

definition convertible :: "json option \<Rightarrow> bool" where
  "convertible v = (case v of None \<Rightarrow> True | Some j \<Rightarrow> toStringWorks j)"

text \<open>Destructuring one field; \<open>JSON.parse\<close> keeps the last of duplicate keys, and a
  value that is not an object has none of the fields.\<close>

fun field :: "json \<Rightarrow> jsstring \<Rightarrow> json option" where
  "field (JObj kvs) k = map_of (rev kvs) k"
| "field v k = None"

text \<open>
  What a call may throw: an \<open>OpenAI.APIError\<close> with its optional HTTP status (the
  status of the upstream answer when there was one) and message, or anything else.
\<close>

datatype Thrown = APIError "nat option" jsstring | OtherError

datatype 'a Outcome = Returns 'a | Throws Thrown

datatype ResponseBody =
    ErrorJson jsstring
  | Text jsstring
  | MarkdownStream "jsstring list"

record Response =
  status :: nat
  body :: ResponseBody

text \<open>
  \<open>new Response(b, { status: s })\<close> for a body \<open>b\<close> that is not \<open>null\<close>: with
  \<open>s\<close> undefined the status is 200; a given status is converted to an unsigned 16-bit
  integer; a status outside 200 to 599 throws a RangeError, and one of the statuses that
  admit no body (204, 205, 304) throws a TypeError.
\<close>

definition newResponse :: "ResponseBody \<Rightarrow> nat option \<Rightarrow> Response Outcome" where
  "newResponse b s =
     (case s of
        None \<Rightarrow> Returns \<lparr>status = 200, body = b\<rparr>
      | Some v \<Rightarrow>
          let n = v mod 65536
          in if n < 200 \<or> 599 < n then Throws OtherError
             else if n = 204 \<or> n = 205 \<or> n = 304 then Throws OtherError
             else Returns \<lparr>status = n, body = b\<rparr>)"

subsection \<open>The plain variant of \<open>/api/chat\<close>\<close>

text \<open>
  The \<open>catch\<close> block. It builds the response for an API error from the status of the
  error; an exception of that constructor leaves the handler.
\<close>

definition catchPlain :: "Thrown \<Rightarrow> Response Outcome" where
  "catchPlain error =
     (case error of
        APIError st message \<Rightarrow> newResponse (Text message) st
      | OtherError \<Rightarrow> Returns \<lparr>status = 500, body = Text (js ''Internal Server Error'')\<rparr>)"

text \<open>
  \<open>reqJson\<close> is the result of \<open>await req.json()\<close>. \<open>create\<close> stands for
  \<open>openai.chat.completions.create\<close> of the client made when the module was loaded: the
  message list sent is a function of the request body, so the upstream answer is taken as
  a function of the body; it returns the \<open>delta.content\<close> of the chunks or throws.
  Before the call, inside the \<open>try\<close>, a TypeError is thrown by destructuring \<open>null\<close>,
  by the conversion of \<open>parentConversation\<close>, \<open>quotedText\<close> or \<open>prompt\<close> to a
  string where the value has none, and by spreading a \<open>conversation\<close> that is not
  iterable. An engine that has not the stack to convert a deeply nested value, or to pass
  the elements of \<open>conversation\<close> as the arguments of \<open>push\<close>, throws a RangeError
  at the place an implementation decides; that is one of the ways in which the step
  \<open>create\<close> ends with \<open>Throws OtherError\<close>.
\<close>

definition POST_plain ::
  "json option \<Rightarrow> (json \<Rightarrow> (jsstring option list) Outcome) \<Rightarrow> Response Outcome" where
  "POST_plain reqJson create =
     (case reqJson of
        None \<Rightarrow> catchPlain OtherError
      | Some JNull \<Rightarrow> catchPlain OtherError
      | Some b \<Rightarrow>
          let prompt = field b (js ''prompt'');
              quotedText = field b (js ''quotedText'');
              parentConversation = field b (js ''parentConversation'');
              conversation = field b (js ''conversation'')
          in if \<not> truthy prompt
             then Returns \<lparr>status = 400, body = ErrorJson (js ''Prompt is required'')\<rparr>
             else if truthy parentConversation \<and> \<not> convertible parentConversation
             then catchPlain OtherError
             else if truthy conversation \<and> \<not> iterable conversation
             then catchPlain OtherError
             else if truthy quotedText \<and> \<not> (convertible quotedText \<and> convertible prompt)
             then catchPlain OtherError
             else if \<not> convertible prompt
             then catchPlain OtherError
             else
               (case create b of
                  Throws error \<Rightarrow> catchPlain error
                | Returns chunks \<Rightarrow>
                    Returns \<lparr>status = 200,
                     body = MarkdownStream
                       (concat (map (\<lambda>c. case c of None \<Rightarrow> [] | Some t \<Rightarrow> if t = [] then [] else [t])
                                    chunks))\<rparr>))"

text \<open>
  The module: \<open>const openai = new OpenAI({ apiKey: process.env.OPENAI_API_KEY })\<close> runs
  when the module is loaded, and the handler is exported only if the constructor returns.
  \<open>newOpenAI\<close> stands for the constructor, which is given the credential and returns the
  client (its \<open>chat.completions.create\<close>) or throws. The handler itself never reads the
  credential.
\<close>

definition module_plain ::
  "jsstring option \<Rightarrow> (jsstring option \<Rightarrow> (json \<Rightarrow> (jsstring option list) Outcome) Outcome) \<Rightarrow>
   (json option \<Rightarrow> Response Outcome) Outcome" where
  "module_plain OPENAI_API_KEY newOpenAI =
     (case newOpenAI OPENAI_API_KEY of
        Throws error \<Rightarrow> Throws error
      | Returns create \<Rightarrow> Returns (\<lambda>reqJson. POST_plain reqJson create))"

subsection \<open>The tool variant of \<open>/api/chat\<close>\<close>

text \<open>
  The object returned by \<open>search.execute\<close>: \<open>{ error: "parallel api key is missing" }\<close>,
  \<open>{ error: "parallel error <status>" }\<close> or \<open>{ answer: content }\<close>. \<open>fetch\<close> stands
  for the call to the search service, given the key and the query.
\<close>

datatype ToolOutput = ErrorMissingKey | ErrorStatus nat | Answer jsstring

datatype FetchResult = NotOk nat | Ok jsstring

definition search_execute ::
  "jsstring option \<Rightarrow> (jsstring \<Rightarrow> jsstring \<Rightarrow> FetchResult) \<Rightarrow> jsstring \<Rightarrow> ToolOutput" where
  "search_execute apiKey fetch query =
     (case apiKey of
        None \<Rightarrow> ErrorMissingKey
      | Some k \<Rightarrow>
          if k = [] then ErrorMissingKey
          else (case fetch k query of
                  NotOk st \<Rightarrow> ErrorStatus st
                | Ok answerText \<Rightarrow> Answer answerText))"

text \<open>
  The parts of \<open>result.fullStream\<close>; \<open>streamText\<close> stands for the SDK call, which is
  given the tool and decides whether to run it.
\<close>

datatype StreamPart = TextDelta jsstring | ToolResult ToolOutput | OtherPart

text \<open>What the response stream enqueues for a part.\<close>

fun streamed :: "StreamPart \<Rightarrow> jsstring list" where
  "streamed (TextDelta t) = [t]"
| "streamed (ToolResult (Answer a)) = (if a = [] then [] else [a])"
| "streamed p = []"

text \<open>
  The handler. The user message is built first, which converts \<open>quotedText\<close> (when
  truthy) and \<open>prompt\<close> to strings; the argument of \<open>streamText\<close> converts
  \<open>parentConversation\<close> (when truthy), and takes \<open>conversation\<close> only if it is an
  array. Every exception is caught and answered with the same response. The step
  \<open>streamText\<close> stands for the library calls of the handler, the construction of the
  tool, of its schema and of the model handle and the call of \<open>streamText\<close>; as in the
  plain variant, running out of stack during a conversion is one of the ways in which it
  ends with \<open>Throws\<close>.
\<close>

definition POST_tool ::
  "json option \<Rightarrow> jsstring option \<Rightarrow> (jsstring \<Rightarrow> jsstring \<Rightarrow> FetchResult) \<Rightarrow>
   ((jsstring \<Rightarrow> ToolOutput) \<Rightarrow> json \<Rightarrow> (StreamPart list) Outcome) \<Rightarrow> Response" where
  "POST_tool reqJson PARALLEL_API_KEY fetch streamText =
     (case reqJson of
        None \<Rightarrow> \<lparr>status = 500, body = Text (js ''Internal Server Error'')\<rparr>
      | Some JNull \<Rightarrow> \<lparr>status = 500, body = Text (js ''Internal Server Error'')\<rparr>
      | Some b \<Rightarrow>
          let prompt = field b (js ''prompt'');
              quotedText = field b (js ''quotedText'');
              parentConversation = field b (js ''parentConversation'')
          in if \<not> truthy prompt
             then \<lparr>status = 400, body = ErrorJson (js ''Prompt is required'')\<rparr>
             else if truthy quotedText \<and> \<not> (convertible quotedText \<and> convertible prompt)
             then \<lparr>status = 500, body = Text (js ''Internal Server Error'')\<rparr>
             else if \<not> convertible prompt
             then \<lparr>status = 500, body = Text (js ''Internal Server Error'')\<rparr>
             else if truthy parentConversation \<and> \<not> convertible parentConversation
             then \<lparr>status = 500, body = Text (js ''Internal Server Error'')\<rparr>
             else
               (case streamText (search_execute PARALLEL_API_KEY fetch) b of
                  Throws error \<Rightarrow> \<lparr>status = 500, body = Text (js ''Internal Server Error'')\<rparr>
                | Returns parts \<Rightarrow>
                    \<lparr>status = 200, body = MarkdownStream (concat (map streamed parts))\<rparr>))"

section \<open>The tree state and the actions that replace it\<close>

text \<open>
  Every call of \<open>setChatTree\<close> in the source: the handlers of the user actions, the four
  updates of \<open>handleNewMessage\<close>, and the layout effect.
\<close>

datatype Action =
    CreateFromSelection int int jsstring
  | Branch int int
  | Delete int
  | PositionChange int rat rat
  | NewMessage int jsstring
  | RequestFailed int
  | ResponseStarted int
  | ChunkRead int jsstring
  | LayoutRun "rat \<Rightarrow> rat" "int \<Rightarrow> rat option" LayoutMode

fun applyAction :: "Action \<Rightarrow> ChatNode list \<Rightarrow> ChatNode list" where
  "applyAction (CreateFromSelection newId sourceChatId text) tree =
     handleCreateFromSelection newId sourceChatId text tree"
| "applyAction (Branch newId sourceChatId) tree = handleBranch newId sourceChatId tree"
| "applyAction (Delete chatId) tree = handleDelete chatId tree"
| "applyAction (PositionChange chatId nx ny) tree = handleChatPositionChange chatId nx ny tree"
| "applyAction (NewMessage chatId message) tree = map (appendMessage chatId message) tree"
| "applyAction (RequestFailed chatId) tree = map (setErrorState chatId) tree"
| "applyAction (ResponseStarted chatId) tree = map (addAssistantPlaceholder chatId) tree"
| "applyAction (ChunkRead chatId chunkValue) tree = map (appendResponseChunk chatId chunkValue) tree"
| "applyAction (LayoutRun fl clientHeights layoutMode) tree =
     layoutEffect fl clientHeights layoutMode tree"

text \<open>
  \<open>isRoot={chat.id === chatTree[0]?.id}\<close>, and the delete button of a card is rendered
  only under \<open>!isRoot && onDelete\<close>: \<open>handleDelete\<close> can be invoked for the id of a
  rendered card that is not the root's id.
\<close>

definition isRoot :: "ChatNode list \<Rightarrow> int \<Rightarrow> bool" where
  "isRoot chatTree chatId = (case chatTree of [] \<Rightarrow> False | r # rest \<Rightarrow> chatId = id (data r))"

definition deleteOffered :: "ChatNode list \<Rightarrow> int \<Rightarrow> bool" where
  "deleteOffered chatTree chatId =
     (chatId \<in> set (map id (flatten chatTree)) \<and> \<not> isRoot chatTree chatId)"

text \<open>Whether the interface lets the action happen in the given tree state.\<close>

fun offered :: "ChatNode list \<Rightarrow> Action \<Rightarrow> bool" where
  "offered chatTree (Delete chatId) = deleteOffered chatTree chatId"
| "offered chatTree a = True"

text \<open>A sequence of actions, each applied only if it is offered in the state it meets.\<close>

fun runUI :: "Action list \<Rightarrow> ChatNode list \<Rightarrow> ChatNode list" where
  "runUI [] tree = tree"
| "runUI (a # as) tree = runUI as (if offered tree a then applyAction a tree else tree)"

text \<open>The ids of the top-level nodes.\<close>

definition rootIds :: "ChatNode list \<Rightarrow> int list" where
  "rootIds t = map (\<lambda>n. id (data n)) t"

section \<open>Auxiliary notions for the statements\<close>

text \<open>All nodes of a forest, in pre-order, each with its subtree.\<close>

fun subtrees :: "ChatNode list \<Rightarrow> ChatNode list" where
  "subtrees [] = []"
| "subtrees (Node d cs # rest) = Node d cs # subtrees cs @ subtrees rest"

text \<open>A node as \<open>handleBranch\<close> creates it, with the given id and children.\<close>

definition branchNode :: "int \<Rightarrow> ChatNode list \<Rightarrow> ChatNode" where
  "branchNode i cs =
     Node \<lparr>id = i, quotedText = None, x = 0, y = 0, height = 150,
           manualPosition = None, conversation = [], isThinking = None\<rparr> cs"

text \<open>A root with two children; the first child, of id 2, has two children of its own.\<close>

definition deleteExample :: "ChatNode list" where
  "deleteExample =
     [branchNode 1 [branchNode 2 [branchNode 3 [], branchNode 4 []], branchNode 5 []]]"

text \<open>The initial tree after the user sent a first message to the root.\<close>

definition askedTree :: "ChatNode list" where
  "askedTree = map (appendMessage 1 (js ''hi'')) initialTree"

text \<open>
  The write to a child in \<open>positionChildren\<close>: a child without the manual flag
  gets the new position (writing the position it already has changes nothing); a child
  with the flag is left alone.
\<close>

definition placeChild :: "ChatData \<Rightarrow> rat \<Rightarrow> rat \<Rightarrow> ChatData" where
  "placeChild cd nx ny = (if truthyFlag (manualPosition cd) then cd else cd\<lparr>x := nx, y := ny\<rparr>)"

text \<open>\<open>totalHeight\<close> of \<open>positionChildren\<close> in horizontal mode.\<close>

definition stackHeight :: "(rat \<Rightarrow> rat) \<Rightarrow> ChatNode list \<Rightarrow> rat" where
  "stackHeight fl cs = foldl (\<lambda>acc h. fl (fl (acc + h) + VERTICAL_SPACING)) (- VERTICAL_SPACING)
                         (map (getSubtreeHeight fl) cs)"

text \<open>
  The initial \<open>yOffset\<close> for the children of a node with fields \<open>d\<close>: the stack of the
  children begins half of its total height above the vertical centre of the node.
\<close>

definition startH :: "(rat \<Rightarrow> rat) \<Rightarrow> ChatData \<Rightarrow> ChatNode list \<Rightarrow> rat" where
  "startH fl d cs = fl (fl (y d + fl (height d / 2)) - fl (stackHeight fl cs / 2))"

text \<open>The children list after \<open>forEachChildH\<close>, without the flag.\<close>

fun arrangeH :: "(rat \<Rightarrow> rat) \<Rightarrow> ChatData \<Rightarrow> rat \<Rightarrow> ChatNode list \<Rightarrow> ChatNode list" where
  "arrangeH fl p yOffset [] = []"
| "arrangeH fl p yOffset (Node cd ccs # rest) =
     (let childHeight = getSubtreeHeight fl (Node cd ccs);
          cd1 = placeChild cd (fl (fl (x p + CARD_WIDTH) + HORIZONTAL_SPACING))
                  (fl (fl (yOffset + fl (childHeight / 2)) - fl (height cd / 2)))
      in Node cd1 (arrangeH fl cd1 (startH fl cd1 ccs) ccs)
         # arrangeH fl p (fl (yOffset + fl (childHeight + VERTICAL_SPACING))) rest)"

text \<open>The tree after \<open>layoutHorizontal\<close>, without the flag.\<close>

definition arrangeRootsH :: "(rat \<Rightarrow> rat) \<Rightarrow> ChatNode list \<Rightarrow> ChatNode list" where
  "arrangeRootsH fl t =
     map (\<lambda>n. Node (data n) (arrangeH fl (data n) (startH fl (data n) (children n)) (children n))) t"

text \<open>\<open>totalWidth\<close> of \<open>positionChildren\<close> in vertical mode.\<close>

definition rowWidth :: "(rat \<Rightarrow> rat) \<Rightarrow> ChatNode list \<Rightarrow> rat" where
  "rowWidth fl cs = foldl (\<lambda>acc w. fl (fl (acc + w) + HORIZONTAL_SPACING)) (- HORIZONTAL_SPACING)
                      (map (getSubtreeWidth fl) cs)"

text \<open>
  The initial \<open>xOffset\<close> for the children of a node with fields \<open>d\<close>: the row of the
  children begins half of its total width to the left of the horizontal centre of the
  node's card.
\<close>

definition startV :: "(rat \<Rightarrow> rat) \<Rightarrow> ChatData \<Rightarrow> ChatNode list \<Rightarrow> rat" where
  "startV fl d cs = fl (fl (x d + fl (CARD_WIDTH / 2)) - fl (rowWidth fl cs / 2))"

text \<open>The children list after \<open>forEachChildV\<close>, without the flag.\<close>

fun arrangeV :: "(rat \<Rightarrow> rat) \<Rightarrow> ChatData \<Rightarrow> rat \<Rightarrow> ChatNode list \<Rightarrow> ChatNode list" where
  "arrangeV fl p xOffset [] = []"
| "arrangeV fl p xOffset (Node cd ccs # rest) =
     (let childWidth = getSubtreeWidth fl (Node cd ccs);
          cd1 = placeChild cd (fl (fl (xOffset + fl (childWidth / 2)) - fl (CARD_WIDTH / 2)))
                  (fl (fl (y p + height p) + VERTICAL_SPACING))
      in Node cd1 (arrangeV fl cd1 (startV fl cd1 ccs) ccs)
         # arrangeV fl p (fl (xOffset + fl (childWidth + HORIZONTAL_SPACING))) rest)"

text \<open>The tree after \<open>layoutVertical\<close>, without the flag.\<close>

definition arrangeRootsV :: "(rat \<Rightarrow> rat) \<Rightarrow> ChatNode list \<Rightarrow> ChatNode list" where
  "arrangeRootsV fl t =
     map (\<lambda>n. Node (data n) (arrangeV fl (data n) (startV fl (data n) (children n)) (children n))) t"

text \<open>The fields of a node after \<open>updateHeights\<close> looked at it.\<close>

definition measured :: "(int \<Rightarrow> rat option) \<Rightarrow> ChatData \<Rightarrow> ChatData" where
  "measured hs d =
     (case hs (id d) of
        Some ch \<Rightarrow> if ch > 0 then d\<lparr>height := ch\<rparr> else d
      | None \<Rightarrow> d)"

text \<open>The tree after \<open>updateHeights\<close>, without the flag.\<close>

fun measureAll :: "(int \<Rightarrow> rat option) \<Rightarrow> ChatNode list \<Rightarrow> ChatNode list" where
  "measureAll hs [] = []"
| "measureAll hs (Node d cs # rest) = Node (measured hs d) (measureAll hs cs) # measureAll hs rest"

text \<open>The tree after the layout of either mode, without the flag.\<close>

definition arrangeRoots :: "(rat \<Rightarrow> rat) \<Rightarrow> LayoutMode \<Rightarrow> ChatNode list \<Rightarrow> ChatNode list" where
  "arrangeRoots fl m t = (if m = Horizontal then arrangeRootsH fl t else arrangeRootsV fl t)"

text \<open>The manual-position flag of a node.\<close>

definition manual :: "ChatNode \<Rightarrow> bool" where
  "manual n = truthyFlag (manualPosition (data n))"

text \<open>
  Where the slot of child \<open>i\<close> begins, in the arithmetic of the code: from \<open>start\<close>, each
  earlier sibling moves the offset on by its extent plus the gap.
\<close>

definition slotOffset ::
  "(rat \<Rightarrow> rat) \<Rightarrow> (ChatNode \<Rightarrow> rat) \<Rightarrow> rat \<Rightarrow> rat \<Rightarrow> ChatNode list \<Rightarrow> nat \<Rightarrow> rat" where
  "slotOffset fl extent gap start cs i =
     foldl (\<lambda>off c. fl (off + fl (extent c + gap))) start (take i cs)"

text \<open>
  Horizontal placement of the children of one node, in the arithmetic of the code: every
  child without the manual flag is to the right of the parent by the card width and the
  horizontal gap, and its vertical centre is the centre of its slot, that is, its \<open>y\<close>
  is the begin of the slot plus half the subtree height minus half its own height. The
  slots are stacked from \<open>startH\<close>, which puts the middle of the stack on the vertical
  centre of the parent.
\<close>

definition wellPlacedH :: "(rat \<Rightarrow> rat) \<Rightarrow> ChatNode \<Rightarrow> bool" where
  "wellPlacedH fl n =
     (let p = data n; cs = children n; top = startH fl p cs
      in list_all (\<lambda>i. let c = cs ! i in
            \<not> manual c \<longrightarrow>
              x (data c) = fl (fl (x p + CARD_WIDTH) + HORIZONTAL_SPACING) \<and>
              y (data c)
                = fl (fl (slotOffset fl (getSubtreeHeight fl) VERTICAL_SPACING top cs i
                          + fl (getSubtreeHeight fl c / 2))
                      - fl (height (data c) / 2)))
          [0..<length cs])"

text \<open>
  Vertical placement of the children of one node, in the arithmetic of the code: every
  child without the manual flag is below the parent by the parent's height and the
  vertical gap, and the centre of its card is the centre of its slot. The slots form a
  row from \<open>startV\<close>, which puts the middle of the row under the centre of the parent's
  card.
\<close>

definition wellPlacedV :: "(rat \<Rightarrow> rat) \<Rightarrow> ChatNode \<Rightarrow> bool" where
  "wellPlacedV fl n =
     (let p = data n; cs = children n; left = startV fl p cs
      in list_all (\<lambda>i. let c = cs ! i in
            \<not> manual c \<longrightarrow>
              y (data c) = fl (fl (y p + height p) + VERTICAL_SPACING) \<and>
              x (data c)
                = fl (fl (slotOffset fl (getSubtreeWidth fl) HORIZONTAL_SPACING left cs i
                          + fl (getSubtreeWidth fl c / 2))
                      - fl (CARD_WIDTH / 2)))
          [0..<length cs])"

text \<open>Placement of the children of one node in the given mode.\<close>

definition wellPlaced :: "(rat \<Rightarrow> rat) \<Rightarrow> LayoutMode \<Rightarrow> ChatNode \<Rightarrow> bool" where
  "wellPlaced fl m n = (if m = Horizontal then wellPlacedH fl n else wellPlacedV fl n)"

text \<open>
  The subtree height in the words of the specification, in exact arithmetic: the larger
  of the own height and the summed subtree heights of the children plus one gap between
  neighbours.
\<close>

fun subtreeHeight_spec :: "ChatNode \<Rightarrow> rat" where
  "subtreeHeight_spec (Node d cs) =
     (if cs = [] then height d
      else max (height d)
             (sum_list (map subtreeHeight_spec cs) + (of_nat (length cs) - 1) * VERTICAL_SPACING))"

text \<open>
  The distance from the start of the stack of siblings to the start of the slot of child
  \<open>i\<close>, in exact arithmetic: the extents of the earlier siblings, each followed by a gap.
\<close>

definition slotStart :: "(ChatNode \<Rightarrow> rat) \<Rightarrow> rat \<Rightarrow> ChatNode list \<Rightarrow> nat \<Rightarrow> rat" where
  "slotStart extent gap cs i = sum_list (map (\<lambda>c. extent c + gap) (take i cs))"

text \<open>
  Horizontal placement in exact arithmetic, as an equation between centres: every child
  without the manual flag is to the right of the parent by the card width and the
  horizontal gap, and is centred vertically in its slot; the slots are stacked from
  \<open>top\<close>, and the whole stack is centred on the centre of the parent.
\<close>

definition centredH :: "ChatNode \<Rightarrow> bool" where
  "centredH n =
     (let p = data n; cs = children n;
          total = sum_list (map subtreeHeight_spec cs) + (of_nat (length cs) - 1) * VERTICAL_SPACING;
          top = y p + height p / 2 - total / 2
      in list_all (\<lambda>i. let c = cs ! i in
            \<not> manual c \<longrightarrow>
              x (data c) = x p + CARD_WIDTH + HORIZONTAL_SPACING \<and>
              y (data c) + height (data c) / 2
                = top + slotStart subtreeHeight_spec VERTICAL_SPACING cs i + subtreeHeight_spec c / 2)
          [0..<length cs])"

text \<open>
  What the layout leaves alone in a node: everything but the height and, for a node
  without the manual flag, the position.
\<close>

definition frameD :: "ChatData \<Rightarrow> ChatData \<Rightarrow> bool" where
  "frameD d d' =
     (id d' = id d \<and> quotedText d' = quotedText d \<and> manualPosition d' = manualPosition d
      \<and> conversation d' = conversation d \<and> isThinking d' = isThinking d
      \<and> (truthyFlag (manualPosition d) \<longrightarrow> x d' = x d \<and> y d' = y d))"

text \<open>A parent at \<open>y = 500\<close> of height 200 with two new children of height 100.\<close>

definition centeringExample :: "ChatNode list" where
  "centeringExample =
     [Node \<lparr>id = 1, quotedText = None, x = 725, y = 500, height = 200,
             manualPosition = None, conversation = [], isThinking = None\<rparr>
        [Node \<lparr>id = 2, quotedText = None, x = 0, y = 0, height = 100,
                manualPosition = None, conversation = [], isThinking = None\<rparr> [],
         Node \<lparr>id = 3, quotedText = None, x = 0, y = 0, height = 100,
                manualPosition = None, conversation = [], isThinking = None\<rparr> []]]"


text \<open>
  A root whose only child was dragged to \<open>(0.1, 0.2)\<close>, the numbers nearest to one
  tenth and one fifth, and has two new children itself.
\<close>

definition draggedExample :: "ChatNode list" where
  "draggedExample =
     [Node \<lparr>id = 1, quotedText = None, x = 725, y = 500, height = 200,
             manualPosition = None, conversation = [], isThinking = None\<rparr>
        [Node \<lparr>id = 2, quotedText = None, x = binary64 (1 / 10), y = binary64 (1 / 5),
                height = 100, manualPosition = Some True, conversation = [],
                isThinking = None\<rparr>
           [Node \<lparr>id = 3, quotedText = None, x = 0, y = 0, height = 100,
                   manualPosition = None, conversation = [], isThinking = None\<rparr> [],
            Node \<lparr>id = 4, quotedText = None, x = 0, y = 0, height = 100,
                   manualPosition = None, conversation = [], isThinking = None\<rparr> []]]]"

text \<open>A request body with just a prompt.\<close>

definition promptBody :: "json \<Rightarrow> json" where
  "promptBody p = JObj [(js ''prompt'', p)]"

text \<open>A prompt that is an object with a key \<open>"toString"\<close>: \<open>{"toString": 1}\<close>.\<close>

definition toStringObject :: json where
  "toStringObject = JObj [(js ''toString'', JNum 1)]"

text \<open>An upstream service that answers every request with the API error 429.\<close>

definition rateLimited :: "json \<Rightarrow> (jsstring option list) Outcome" where
  "rateLimited b = Throws (APIError (Some 429) (js ''Rate limit reached''))"

text \<open>A search service that would answer, and an SDK run in which the model calls the
  search tool once and then writes some text.\<close>

definition searchFound :: "jsstring \<Rightarrow> jsstring \<Rightarrow> FetchResult" where
  "searchFound k q = Ok (js ''found'')"

definition modelCallsSearch :: "(jsstring \<Rightarrow> ToolOutput) \<Rightarrow> json \<Rightarrow> (StreamPart list) Outcome" where
  "modelCallsSearch exec b = Returns [ToolResult (exec (js ''news'')), TextDelta (js ''no results'')]"

text \<open>
  The exceptions thrown in the plain handler between the check of the prompt and the
  upstream call, as a condition on the body.
\<close>

definition buildFailsPlain :: "json \<Rightarrow> bool" where
  "buildFailsPlain b =
     ((truthy (field b (js ''parentConversation''))
         \<and> \<not> convertible (field b (js ''parentConversation'')))
      \<or> (truthy (field b (js ''conversation'')) \<and> \<not> iterable (field b (js ''conversation'')))
      \<or> (truthy (field b (js ''quotedText'')) \<and> \<not> convertible (field b (js ''quotedText'')))
      \<or> \<not> convertible (field b (js ''prompt'')))"

text \<open>The same for the tool handler, which spreads \<open>conversation\<close> only if it is an
  array.\<close>

definition buildFailsTool :: "json \<Rightarrow> bool" where
  "buildFailsTool b =
     ((truthy (field b (js ''quotedText'')) \<and> \<not> convertible (field b (js ''quotedText'')))
      \<or> \<not> convertible (field b (js ''prompt''))
      \<or> (truthy (field b (js ''parentConversation''))
         \<and> \<not> convertible (field b (js ''parentConversation''))))"

text \<open>The two responses that the handlers write out in full.\<close>

definition promptRequired :: Response where
  "promptRequired = \<lparr>status = 400, body = ErrorJson (js ''Prompt is required'')\<rparr>"

definition internalServerError :: Response where
  "internalServerError = \<lparr>status = 500, body = Text (js ''Internal Server Error'')\<rparr>"

text \<open>
  The specification's wording, "the first two non-blank lines": a line is blank when it
  holds nothing but white space. Everything else is as in \<open>truncateSelection\<close>.
\<close>

definition isBlankLine :: "jsstring \<Rightarrow> bool" where
  "isBlankLine l = list_all isTrimChar l"

definition spec_truncateSelection :: "jsstring \<Rightarrow> jsstring" where
  "spec_truncateSelection text =
     (let lines = filter (\<lambda>l. \<not> isBlankLine l) (splitLines (trim text));
          firstTwo = join [SPACE] (take 2 lines)
      in if length firstTwo > maxChars then take maxChars firstTwo @ [ELLIPSIS] else firstTwo)"

text \<open>The text with every CR that stands directly before a LF removed.\<close>

fun crlfToLf :: "jsstring \<Rightarrow> jsstring" where
  "crlfToLf [] = []"
| "crlfToLf (c # rest) =
     (if c = CR \<and> rest \<noteq> [] \<and> hd rest = LF then crlfToLf rest else c # crlfToLf rest)"

definition nonEmptyLines :: "jsstring \<Rightarrow> jsstring list" where
  "nonEmptyLines text = filter (\<lambda>l. l \<noteq> []) (splitLines (trim text))"

definition lineExample :: jsstring where
  "lineExample = js ''Line one.'' @ [LF] @ js ''Line two.'' @ [LF] @ js ''Line three.''"

definition blankLineExample :: jsstring where
  "blankLineExample = js ''a'' @ [LF, SPACE, LF] @ js ''b''"

lemma splitLinesFrom_no_LF:
  "LF \<notin> set cur \<Longrightarrow> l \<in> set (splitLinesFrom cur s) \<Longrightarrow> LF \<notin> set l"
proof (induction cur s rule: splitLinesFrom.induct)
  case (1 cur)
  then show ?case by simp
next
  case (2 cur c rest)
  then show ?case by (auto split: if_splits)
qed

lemma splitLinesFrom_nonempty: "splitLinesFrom cur s \<noteq> []"
  by (induction cur s rule: splitLinesFrom.induct) auto

lemma join_Cons: "ls \<noteq> [] \<Longrightarrow> join sep (l # ls) = l @ sep @ join sep ls"
  by (cases ls) simp_all

lemma join_splitLinesFrom: "join [LF] (splitLinesFrom cur s) = rev cur @ crlfToLf s"
proof (induction cur s rule: splitLinesFrom.induct)
  case (1 cur)
  then show ?case by simp
next
  case (2 cur c rest)
  have ne: "LF \<noteq> CR" by (simp add: LF_def CR_def)
  consider (crlf) "c = CR \<and> rest \<noteq> [] \<and> hd rest = LF"
    | (lf) "\<not> (c = CR \<and> rest \<noteq> [] \<and> hd rest = LF)" "c = LF"
    | (other) "\<not> (c = CR \<and> rest \<noteq> [] \<and> hd rest = LF)" "c \<noteq> LF"
    by blast
  then show ?case
  proof cases
    case crlf
    then obtain r where r: "rest = LF # r" by (cases rest) auto
    from "2.IH"(1) [OF crlf] r have ih: "join [LF] (splitLinesFrom [] r) = crlfToLf r" by simp
    have "splitLinesFrom cur (c # rest) = rev cur # splitLinesFrom [] r"
      using crlf r by simp
    moreover have "crlfToLf (c # rest) = LF # crlfToLf r"
      using crlf r ne by simp
    ultimately show ?thesis
      using ih by (simp add: join_Cons splitLinesFrom_nonempty)
  next
    case lf
    from "2.IH"(2) [OF lf] have ih: "join [LF] (splitLinesFrom [] rest) = crlfToLf rest" by simp
    have "splitLinesFrom cur (c # rest) = rev cur # splitLinesFrom [] rest"
      using lf ne by simp
    moreover have "crlfToLf (c # rest) = LF # crlfToLf rest"
      using lf ne by simp
    ultimately show ?thesis
      using ih by (simp add: join_Cons splitLinesFrom_nonempty)
  next
    case other
    from "2.IH"(3) [OF other]
    have ih: "join [LF] (splitLinesFrom (c # cur) rest) = rev (c # cur) @ crlfToLf rest" .
    have "splitLinesFrom cur (c # rest) = splitLinesFrom (c # cur) rest"
      using other by (simp only: splitLinesFrom.simps if_False)
    moreover have "crlfToLf (c # rest) = c # crlfToLf rest"
      using other by (simp only: crlfToLf.simps if_False)
    ultimately show ?thesis using ih by simp
  qed
qed

lemma nonEmptyLines_lines:
  "l \<in> set (nonEmptyLines text) \<Longrightarrow> l \<noteq> [] \<and> LF \<notin> set l"
  using splitLinesFrom_no_LF [of "[]" l "trim text"]
  by (simp add: nonEmptyLines_def splitLines_def)

text \<open>
  C1 (as stated, with "non-blank" read as "not only white space") fails: a line holding a
  single space is kept by \<open>filter(Boolean)\<close>, which drops empty strings only.
\<close>

theorem truncateSelection_blank_line_counterexample:
  "truncateSelection blankLineExample = js ''a  ''
   \<and> spec_truncateSelection blankLineExample = js ''a b''
   \<and> truncateSelection blankLineExample \<noteq> spec_truncateSelection blankLineExample"
  by (simp add: blankLineExample_def truncateSelection_def spec_truncateSelection_def
      isBlankLine_def js_def splitLines_def trim_def isTrimChar_def LF_def CR_def SPACE_def
      maxChars_def)

text \<open>
  C1 (amended): \<open>truncateSelection\<close> returns the first two non-empty lines of the trimmed
  text (the pieces between line breaks LF or CR LF; a line of white space counts), joined by
  one space; a result longer than 240 code units is cut to its first 240 code units and
  the ellipsis is appended, otherwise it is returned as it is. The result never has more
  than 241 code units. The lines are the pieces of the trimmed text: none holds a LF, and
  joined again with LF they give the trimmed text with CR LF read as LF. The three-line
  example gives "Line one. Line two." with no ellipsis, and a line of 300 letters "a" gives
  its first 240 letters followed by the ellipsis.
\<close>

theorem truncateSelection_first_two_nonempty_lines:
  "(let firstTwo = join [SPACE] (take 2 (nonEmptyLines text))
    in (length firstTwo \<le> 240 \<longrightarrow> truncateSelection text = firstTwo)
     \<and> (length firstTwo > 240 \<longrightarrow> truncateSelection text = take 240 firstTwo @ [ELLIPSIS]))
   \<and> length (truncateSelection text) \<le> 241
   \<and> nonEmptyLines text = filter (\<lambda>l. l \<noteq> []) (splitLines (trim text))
   \<and> join [LF] (splitLines (trim text)) = crlfToLf (trim text)
   \<and> (\<forall>l \<in> set (splitLines (trim text)). LF \<notin> set l)
   \<and> (\<forall>l \<in> set (nonEmptyLines text). l \<noteq> [] \<and> LF \<notin> set l)
   \<and> truncateSelection lineExample = js ''Line one. Line two.''
   \<and> truncateSelection (replicate 300 97) = replicate 240 97 @ [ELLIPSIS]"
proof -
  have long: "truncateSelection (replicate 300 97) = replicate 240 97 @ [ELLIPSIS]"
    by code_simp
  have rejoin: "join [LF] (splitLines (trim text)) = crlfToLf (trim text)"
    using join_splitLinesFrom [of "[]" "trim text"] by (simp add: splitLines_def)
  have nolf: "\<forall>l \<in> set (splitLines (trim text)). LF \<notin> set l"
    using splitLinesFrom_no_LF [of "[]" _ "trim text"] by (simp add: splitLines_def)
  have ex: "truncateSelection lineExample = js ''Line one. Line two.''"
    by (simp add: lineExample_def truncateSelection_def js_def splitLines_def trim_def
        isTrimChar_def LF_def CR_def SPACE_def maxChars_def)
  have len: "length (truncateSelection text) \<le> 241"
    by (simp add: truncateSelection_def Let_def maxChars_def)
  have shape: "(let firstTwo = join [SPACE] (take 2 (nonEmptyLines text))
    in (length firstTwo \<le> 240 \<longrightarrow> truncateSelection text = firstTwo)
     \<and> (length firstTwo > 240 \<longrightarrow> truncateSelection text = take 240 firstTwo @ [ELLIPSIS]))"
    by (simp add: truncateSelection_def nonEmptyLines_def Let_def maxChars_def)
  have used: "\<forall>l \<in> set (nonEmptyLines text). l \<noteq> [] \<and> LF \<notin> set l"
    using nonEmptyLines_lines by blast
  have unf: "nonEmptyLines text = filter (\<lambda>l. l \<noteq> []) (splitLines (trim text))"
    by (rule nonEmptyLines_def)
  from shape len unf rejoin nolf used ex long show ?thesis
    by (intro conjI)
qed

theorem truncateSelection_first_two_nonempty_lines_witness:
  "nonEmptyLines lineExample = [js ''Line one.'', js ''Line two.'', js ''Line three.'']
   \<and> length (join [SPACE] (take 2 (nonEmptyLines lineExample))) \<le> 240
   \<and> truncateSelection lineExample = join [SPACE] (take 2 (nonEmptyLines lineExample))
   \<and> truncateSelection lineExample = js ''Line one. Line two.''"
proof -
  have ls: "nonEmptyLines lineExample = [js ''Line one.'', js ''Line two.'', js ''Line three.'']"
    by (simp add: lineExample_def nonEmptyLines_def js_def splitLines_def trim_def
        isTrimChar_def LF_def CR_def)
  have short: "length (join [SPACE] (take 2 (nonEmptyLines lineExample))) \<le> 240"
    by (simp add: ls js_def)
  from truncateSelection_first_two_nonempty_lines [of lineExample]
  have "let firstTwo = join [SPACE] (take 2 (nonEmptyLines lineExample))
    in (length firstTwo \<le> 240 \<longrightarrow> truncateSelection lineExample = firstTwo)
     \<and> (length firstTwo > 240 \<longrightarrow> truncateSelection lineExample = take 240 firstTwo @ [ELLIPSIS])"
    by (rule conjunct1)
  with short have eq: "truncateSelection lineExample = join [SPACE] (take 2 (nonEmptyLines lineExample))"
    by (simp add: Let_def)
  have "join [SPACE] (take 2 (nonEmptyLines lineExample)) = js ''Line one. Line two.''"
    by (simp add: ls js_def SPACE_def)
  with eq short ls show ?thesis by (simp add: js_def)
qed

section \<open>Equations of the tree functions on empty and non-empty forests\<close>

lemma foldl_append_acc:
  "foldl (\<lambda>acc node. acc @ f node) a ns = a @ concat (map f ns)"
  by (induction ns arbitrary: a) simp_all

lemma flatten_Nil [simp]: "flatten [] = []"
  by (simp add: flatten.simps [of "[]"])

lemma flatten_concat: "flatten ns = concat (map (\<lambda>n. data n # flatten (children n)) ns)"
  using foldl_append_acc [of "\<lambda>n. data n # flatten (children n)" "[]" ns]
  by (simp add: flatten.simps [of ns])

lemma flatten_Cons [simp]: "flatten (Node d cs # rest) = d # flatten cs @ flatten rest"
  by (simp add: flatten_concat [of "Node d cs # rest"] flatten_concat [of rest])

lemma removeNode_Nil [simp]: "removeNode c [] = []"
  by (simp add: removeNode.simps [of c "[]"])

lemma removeNode_Cons [simp]:
  "removeNode c (Node d cs # rest) =
     (if id d \<noteq> c then Node d (removeNode c cs) # removeNode c rest else removeNode c rest)"
  by (simp add: removeNode.simps [of c "Node d cs # rest"] removeNode.simps [of c rest])

lemma moveChildren_Nil [simp]: "moveChildren dx dy [] = []"
  by (simp add: moveChildren.simps [of dx dy "[]"])

lemma moveChildren_Cons [simp]:
  "moveChildren dx dy (Node d cs # rest) =
     Node (d\<lparr>x := x d + dx, y := y d + dy\<rparr>) (moveChildren dx dy cs) # moveChildren dx dy rest"
  by (simp add: moveChildren.simps [of dx dy "Node d cs # rest"] moveChildren.simps [of dx dy rest])

lemma updatePosition_Nil [simp]: "updatePosition c nx ny [] = []"
  by (simp add: updatePosition.simps [of c nx ny "[]"])

lemma updatePosition_Cons [simp]:
  "updatePosition c nx ny (Node d cs # rest) =
     (if id d = c
      then Node (d\<lparr>x := nx, y := ny, manualPosition := Some True\<rparr>)
                (moveChildren (nx - x d) (ny - y d) cs)
      else Node d (updatePosition c nx ny cs)) # updatePosition c nx ny rest"
  by (simp add: updatePosition.simps [of c nx ny "Node d cs # rest"]
      updatePosition.simps [of c nx ny rest] Let_def)

lemma moveChildren_zero: "moveChildren 0 0 t = t"
  by (induction t rule: subtrees.induct) simp_all

lemma updatePosition_twice:
  "updatePosition c nx ny (updatePosition c nx ny t) = updatePosition c nx ny t"
  by (induction t rule: subtrees.induct) (simp_all add: moveChildren_zero)

lemma removeNode_absent: "c \<notin> id ` set (flatten t) \<Longrightarrow> removeNode c t = t"
  by (induction t rule: subtrees.induct) auto

lemma findNode_None: "findNode t c = None \<longleftrightarrow> c \<notin> id ` set (flatten t)"
  by (induction t rule: subtrees.induct) (auto split: option.splits)

lemma findNode_Some:
  "findNode t c = Some n \<Longrightarrow> id (data n) = c \<and> set (flatten [n]) \<subseteq> set (flatten t)"
  by (induction t rule: subtrees.induct) (auto split: option.splits if_splits)

lemma data_in_flatten: "data n \<in> set (flatten [n])"
  by (cases n) simp

lemma findNode_Some_id: "findNode t c = Some n \<Longrightarrow> c \<in> id ` set (flatten t)"
  using findNode_Some [of t c n] data_in_flatten [of n] by blast

lemma filter_notin_disjoint: "set ys \<inter> S = {} \<Longrightarrow> filter (\<lambda>e. e \<notin> S) ys = ys"
  by (induction ys) auto

lemma filter_notin_all: "set ys \<subseteq> S \<Longrightarrow> filter (\<lambda>e. e \<notin> S) ys = []"
  by (induction ys) auto

lemma removeNode_flatten:
  "distinct (map id (flatten t)) \<Longrightarrow> findNode t c = Some n \<Longrightarrow>
   flatten (removeNode c t) = filter (\<lambda>d. d \<notin> set (flatten [n])) (flatten t)"
proof (induction t rule: subtrees.induct)
  case 1
  then show ?case by simp
next
  case (2 d cs rest)
  from "2.prems"(1) have dcs: "distinct (map id (flatten cs))"
    and drest: "distinct (map id (flatten rest))"
    and d_cs: "id d \<notin> id ` set (flatten cs)"
    and d_rest: "id d \<notin> id ` set (flatten rest)"
    and cs_rest: "id ` set (flatten cs) \<inter> id ` set (flatten rest) = {}"
    by auto
  show ?case
  proof (cases "id d = c")
    case True
    with "2.prems"(2) have n: "n = Node d cs" by simp
    from True d_rest have "removeNode c rest = rest" by (simp add: removeNode_absent)
    moreover have "filter (\<lambda>e. e \<notin> set (flatten [Node d cs])) (flatten rest) = flatten rest"
      using d_rest cs_rest by (intro filter_notin_disjoint) auto
    moreover have "filter (\<lambda>e. e \<notin> set (flatten [Node d cs])) (flatten cs) = []"
      by (intro filter_notin_all) auto
    ultimately show ?thesis using True n by simp
  next
    case False
    show ?thesis
    proof (cases "findNode cs c")
      case (Some f)
      with False "2.prems"(2) have fn: "findNode cs c = Some n" by simp
      from findNode_Some [OF fn] have sub: "set (flatten [n]) \<subseteq> set (flatten cs)"
        and "c \<in> id ` set (flatten cs)" using findNode_Some_id [OF fn] by auto
      with cs_rest have "c \<notin> id ` set (flatten rest)" by auto
      then have r: "removeNode c rest = rest" by (simp add: removeNode_absent)
      have "filter (\<lambda>e. e \<notin> set (flatten [n])) (flatten rest) = flatten rest"
        using sub cs_rest by (intro filter_notin_disjoint) auto
      moreover have "d \<notin> set (flatten [n])" using sub d_cs by auto
      ultimately show ?thesis using False r "2.IH"(1) [OF dcs fn] by simp
    next
      case None
      with False "2.prems"(2) have fn: "findNode rest c = Some n" by simp
      from findNode_Some [OF fn] have sub: "set (flatten [n]) \<subseteq> set (flatten rest)" by auto
      from None have "c \<notin> id ` set (flatten cs)" by (simp add: findNode_None)
      then have r: "removeNode c cs = cs" by (simp add: removeNode_absent)
      have "filter (\<lambda>e. e \<notin> set (flatten [n])) (flatten cs) = flatten cs"
        using sub cs_rest by (intro filter_notin_disjoint) auto
      moreover have "d \<notin> set (flatten [n])" using sub d_rest by auto
      ultimately show ?thesis using False r "2.IH"(2) [OF drest fn] by simp
    qed
  qed
qed

lemma removeNode_length:
  "distinct (map id (flatten t)) \<Longrightarrow> findNode t c = Some n \<Longrightarrow>
   length (flatten (removeNode c t)) + length (flatten [n]) = length (flatten t)"
proof (induction t rule: subtrees.induct)
  case 1
  then show ?case by simp
next
  case (2 d cs rest)
  from "2.prems"(1) have dcs: "distinct (map id (flatten cs))"
    and drest: "distinct (map id (flatten rest))"
    and d_rest: "id d \<notin> id ` set (flatten rest)"
    and cs_rest: "id ` set (flatten cs) \<inter> id ` set (flatten rest) = {}"
    by auto
  show ?case
  proof (cases "id d = c")
    case True
    with "2.prems"(2) have n: "n = Node d cs" by simp
    from True d_rest have "removeNode c rest = rest" by (simp add: removeNode_absent)
    then show ?thesis using True n by simp
  next
    case False
    show ?thesis
    proof (cases "findNode cs c")
      case (Some f)
      with False "2.prems"(2) have fn: "findNode cs c = Some n" by simp
      from findNode_Some_id [OF fn] have "c \<in> id ` set (flatten cs)" .
      with cs_rest have "c \<notin> id ` set (flatten rest)" by auto
      then have r: "removeNode c rest = rest" by (simp add: removeNode_absent)
      show ?thesis using False r "2.IH"(1) [OF dcs fn] by simp
    next
      case None
      with False "2.prems"(2) have fn: "findNode rest c = Some n" by simp
      from None have "c \<notin> id ` set (flatten cs)" by (simp add: findNode_None)
      then have r: "removeNode c cs = cs" by (simp add: removeNode_absent)
      show ?thesis using False r "2.IH"(2) [OF drest fn] by simp
    qed
  qed
qed

text \<open>
  C5: on a tree with unique ids, \<open>handleDelete\<close> with the id of a node of the tree
  removes from the flattened list exactly that node and the nodes of its subtree, and
  leaves every other entry as it was and in place; the list gets shorter by one plus the
  number of descendants, so by exactly three when the node has two descendants.
\<close>

theorem handleDelete_removes_exactly_subtree:
  assumes "distinct (map id (flatten t))" and "findNode t c = Some n"
  shows "flatten (handleDelete c t) = filter (\<lambda>d. d \<notin> set (flatten [n])) (flatten t)
       \<and> length (flatten (handleDelete c t)) + (1 + length (flatten (children n)))
           = length (flatten t)
       \<and> (length (flatten (children n)) = 2 \<longrightarrow>
            length (flatten (handleDelete c t)) + 3 = length (flatten t))"
proof -
  have single: "length (flatten [n]) = 1 + length (flatten (children n))"
    by (cases n) simp
  from removeNode_flatten [OF assms] removeNode_length [OF assms] single
  show ?thesis by (simp add: handleDelete_def)
qed

theorem handleDelete_removes_exactly_subtree_witness:
  "distinct (map id (flatten deleteExample))
   \<and> findNode deleteExample 2 = Some (branchNode 2 [branchNode 3 [], branchNode 4 []])
   \<and> length (flatten (children (branchNode 2 [branchNode 3 [], branchNode 4 []]))) = 2
   \<and> map id (flatten deleteExample) = [1, 2, 3, 4, 5]
   \<and> length (flatten (handleDelete 2 deleteExample)) + 3 = length (flatten deleteExample)
   \<and> flatten (handleDelete 2 deleteExample) = [data (branchNode 1 []), data (branchNode 5 [])]"
proof -
  have d: "distinct (map id (flatten deleteExample))"
    by (simp add: deleteExample_def branchNode_def)
  have f: "findNode deleteExample 2 = Some (branchNode 2 [branchNode 3 [], branchNode 4 []])"
    by (simp add: deleteExample_def branchNode_def)
  have ids: "map id (flatten deleteExample) = [1, 2, 3, 4, 5]"
    by (simp add: deleteExample_def branchNode_def)
  have two: "length (flatten (children (branchNode 2 [branchNode 3 [], branchNode 4 []]))) = 2"
    by (simp add: branchNode_def)
  have fl: "filter (\<lambda>d. d \<notin> set (flatten [branchNode 2 [branchNode 3 [], branchNode 4 []]]))
              (flatten deleteExample) = [data (branchNode 1 []), data (branchNode 5 [])]"
    by (simp add: deleteExample_def branchNode_def)
  have len: "length (flatten deleteExample) = 5"
    by (simp add: deleteExample_def branchNode_def)
  from handleDelete_removes_exactly_subtree [OF d f] d f ids two fl len
  show ?thesis by simp
qed

text \<open>
  C6: \<open>updatePosition\<close> with the same arguments twice gives the same tree as once, for
  every tree, id and target position; the second application moves the descendants by
  the zero vector, which changes nothing.
\<close>

theorem handleChatPositionChange_idempotent:
  "handleChatPositionChange c nx ny (handleChatPositionChange c nx ny t)
     = handleChatPositionChange c nx ny t
   \<and> moveChildren 0 0 cs = cs"
  by (simp add: handleChatPositionChange_def updatePosition_twice moveChildren_zero)

theorem handleChatPositionChange_idempotent_witness:
  "map (\<lambda>d. (id d, x d, y d, manualPosition d))
       (flatten (handleChatPositionChange 2 10 20 deleteExample))
     = [(1, 0, 0, None), (2, 10, 20, Some True), (3, 10, 20, None), (4, 10, 20, None),
        (5, 0, 0, None)]
   \<and> handleChatPositionChange 2 10 20 (handleChatPositionChange 2 10 20 deleteExample)
     = handleChatPositionChange 2 10 20 deleteExample"
proof -
  have "map (\<lambda>d. (id d, x d, y d, manualPosition d))
       (flatten (handleChatPositionChange 2 10 20 deleteExample))
     = [(1, 0, 0, None), (2, 10, 20, Some True), (3, 10, 20, None), (4, 10, 20, None),
        (5, 0, 0, None)]"
    by (simp add: handleChatPositionChange_def deleteExample_def branchNode_def)
  with handleChatPositionChange_idempotent [of 2 10 20 deleteExample] show ?thesis by simp
qed

section \<open>Streaming\<close>

lemma findNode_id: "findNode t c = Some n \<Longrightarrow> id (data n) = c"
  by (induction t rule: subtrees.induct) (auto split: option.splits if_splits)

lemma findNode_addAssistantPlaceholder:
  "findNode (map (addAssistantPlaceholder c) t) c =
   map_option (addAssistantPlaceholder c) (findNode t c)"
  by (induction t rule: subtrees.induct) (auto split: option.splits)

lemma findNode_appendResponseChunk:
  "findNode (map (appendResponseChunk c v) t) c =
   map_option (appendResponseChunk c v) (findNode t c)"
  by (induction t rule: subtrees.induct) (auto split: option.splits)

lemma readLoop_found:
  "findNode t c = Some (Node d cs) \<Longrightarrow>
   conversation d = pre @ [\<lparr>role = Assistant, content = acc\<rparr>] \<Longrightarrow>
   findNode (readLoop decode c reads t) c =
     Some (Node (d\<lparr>conversation :=
                    pre @ [\<lparr>role = Assistant, content = acc @ concat (map decode reads)\<rparr>]\<rparr>) cs)"
proof (induction reads arbitrary: t d acc)
  case Nil
  from findNode_id [OF Nil(1)] have "id d = c" by simp
  with Nil show ?case by (simp add: findNode_appendResponseChunk)
next
  case (Cons v reads)
  from findNode_id [OF Cons.prems(1)] have idd: "id d = c" by simp
  let ?d' = "d\<lparr>conversation := pre @ [\<lparr>role = Assistant, content = acc @ decode v\<rparr>]\<rparr>"
  have step: "findNode (map (appendResponseChunk c (decode v)) t) c = Some (Node ?d' cs)"
    using Cons.prems idd by (simp add: findNode_appendResponseChunk)
  have "conversation ?d' = pre @ [\<lparr>role = Assistant, content = acc @ decode v\<rparr>]" by simp
  from Cons.IH [OF step this] show ?case by simp
qed

lemma streamResponse_found:
  assumes "findNode t c = Some n"
  shows "findNode (streamResponse decode c reads t) c =
     Some (Node ((data n)\<lparr>conversation :=
                    conversation (data n) @
                    [\<lparr>role = Assistant, content = concat (map decode reads)\<rparr>],
                  isThinking := Some False\<rparr>) (children n))"
proof -
  obtain d cs where n: "n = Node d cs" by (cases n)
  from findNode_id [OF assms] n have idd: "id d = c" by simp
  let ?d0 = "d\<lparr>conversation := conversation d @ [\<lparr>role = Assistant, content = []\<rparr>],
                isThinking := Some False\<rparr>"
  have f0: "findNode (map (addAssistantPlaceholder c) t) c = Some (Node ?d0 cs)"
    using assms n idd by (simp add: findNode_addAssistantPlaceholder)
  have "conversation ?d0 = conversation d @ [\<lparr>role = Assistant, content = []\<rparr>]" by simp
  from readLoop_found [OF f0 this, of decode reads] show ?thesis
    by (simp add: streamResponse_def n)
qed

text \<open>
  C9: when the node of the request is in the tree, the placeholder and the read loop
  leave it with its former conversation followed by one assistant message whose content
  is the decoded chunks concatenated in the order they were read; with the chunks "Hel",
  "lo", " world" the content is "Hello world".
\<close>

theorem streamResponse_appends_in_order:
  "(findNode t c = Some n \<longrightarrow>
      findNode (streamResponse decode c reads t) c =
        Some (Node ((data n)\<lparr>conversation :=
                       conversation (data n) @
                       [\<lparr>role = Assistant, content = concat (map decode reads)\<rparr>],
                     isThinking := Some False\<rparr>) (children n)))
   \<and> map (\<lambda>n. map content (conversation (data n)))
         (streamResponse (\<lambda>v. v) 1 [js ''Hel'', js ''lo'', js '' world''] askedTree)
       = [[js ''hi'', js ''Hello world'']]"
proof -
  have "map (\<lambda>n. map content (conversation (data n)))
         (streamResponse (\<lambda>v. v) 1 [js ''Hel'', js ''lo'', js '' world''] askedTree)
       = [[js ''hi'', js ''Hello world'']]"
    by (simp add: streamResponse_def askedTree_def initialTree_def js_def)
  with streamResponse_found [of t c n decode reads] show ?thesis by blast
qed

theorem streamResponse_appends_in_order_witness:
  "findNode askedTree 1 = Some (hd askedTree)
   \<and> map_option (\<lambda>n. last (conversation (data n)))
         (findNode (streamResponse (\<lambda>v. v) 1 [js ''Hel'', js ''lo'', js '' world''] askedTree) 1)
       = Some \<lparr>role = Assistant, content = js ''Hello world''\<rparr>"
proof -
  have f: "findNode askedTree 1 = Some (hd askedTree)"
    by (simp add: askedTree_def initialTree_def)
  from streamResponse_appends_in_order
         [of askedTree 1 "hd askedTree" "\<lambda>v. v" "[js ''Hel'', js ''lo'', js '' world'']"] f
  show ?thesis by (simp add: js_def)
qed

section \<open>The layout functions without the flag\<close>

lemma positionChildrenH_unfold:
  "positionChildrenH fl (Node d cs) hc =
     (fst (forEachChildH fl d (startH fl d cs) cs hc),
      Node d (snd (forEachChildH fl d (startH fl d cs) cs hc)))"
  by (cases cs) (simp_all add: startH_def stackHeight_def Let_def split: prod.splits)

lemma placeChild_flag:
  "(if \<not> truthyFlag (manualPosition cd) \<and> (x cd \<noteq> nx \<or> y cd \<noteq> ny)
    then (True, cd\<lparr>x := nx, y := ny\<rparr>) else (hc, cd))
   = (hc \<or> placeChild cd nx ny \<noteq> cd, placeChild cd nx ny)"
proof -
  have "cd\<lparr>x := nx, y := ny\<rparr> = cd \<longleftrightarrow> x cd = nx \<and> y cd = ny"
    by (cases cd) auto
  then show ?thesis by (auto simp: placeChild_def)
qed

lemma forEachChildH_arrangeH:
  "forEachChildH fl p yo cs hc = (hc \<or> arrangeH fl p yo cs \<noteq> cs, arrangeH fl p yo cs)"
proof (induction cs arbitrary: p yo hc rule: subtrees.induct)
  case 1
  then show ?case by simp
next
  case (2 cd ccs rest)
  show ?case
    by (simp only: forEachChildH.simps placeChild_flag Let_def prod.case
        positionChildrenH_unfold "2.IH" fst_conv snd_conv arrangeH.simps)
       auto
qed

declare positionChildrenH.simps [simp del]

lemma layoutHorizontal_arrange:
  "layoutHorizontal fl t hc = (hc \<or> arrangeRootsH fl t \<noteq> t, arrangeRootsH fl t)"
proof (induction t arbitrary: hc)
  case Nil
  then show ?case by (simp add: arrangeRootsH_def)
next
  case (Cons n t)
  obtain d cs where n: "n = Node d cs" by (cases n)
  show ?case
    by (simp add: n positionChildrenH_unfold forEachChildH_arrangeH Cons.IH arrangeRootsH_def)
qed

lemma placeChild_fields [simp]:
  "height (placeChild cd nx ny) = height cd"
  "id (placeChild cd nx ny) = id cd"
  "manualPosition (placeChild cd nx ny) = manualPosition cd"
  "conversation (placeChild cd nx ny) = conversation cd"
  "quotedText (placeChild cd nx ny) = quotedText cd"
  "isThinking (placeChild cd nx ny) = isThinking cd"
  by (simp_all add: placeChild_def)

lemma placeChild_idem [simp]: "placeChild (placeChild cd nx ny) nx ny = placeChild cd nx ny"
  by (simp add: placeChild_def)

lemma placeChild_pos:
  "\<not> truthyFlag (manualPosition cd) \<Longrightarrow> x (placeChild cd nx ny) = nx \<and> y (placeChild cd nx ny) = ny"
  by (simp add: placeChild_def)

lemma placeChild_manual:
  "truthyFlag (manualPosition cd) \<Longrightarrow> placeChild cd nx ny = cd"
  by (simp add: placeChild_def)

lemma getSubtreeHeight_cong:
  "height d' = height d \<Longrightarrow> map (getSubtreeHeight fl) cs' = map (getSubtreeHeight fl) cs \<Longrightarrow>
   getSubtreeHeight fl (Node d' cs') = getSubtreeHeight fl (Node d cs)"
  using map_eq_imp_length_eq [of "getSubtreeHeight fl" cs' "getSubtreeHeight fl" cs] by simp

declare getSubtreeHeight.simps [simp del]

lemma arrangeH_heights:
  "map (getSubtreeHeight fl) (arrangeH fl p yo cs) = map (getSubtreeHeight fl) cs"
proof (induction cs arbitrary: p yo rule: subtrees.induct)
  case 1
  then show ?case by simp
next
  case (2 cd ccs rest)
  show ?case
    by (simp only: arrangeH.simps Let_def list.map "2.IH" list.inject simp_thms
        getSubtreeHeight_cong [OF placeChild_fields(1) "2.IH"(1)])
qed

lemma stackHeight_arrangeH [simp]: "stackHeight fl (arrangeH fl p yo cs) = stackHeight fl cs"
  by (simp add: stackHeight_def arrangeH_heights)

lemma startH_arrangeH [simp]: "startH fl d (arrangeH fl p yo cs) = startH fl d cs"
  by (simp add: startH_def)

lemma arrangeH_idem: "arrangeH fl p yo (arrangeH fl p yo cs) = arrangeH fl p yo cs"
proof (induction cs arbitrary: p yo rule: subtrees.induct)
  case 1
  then show ?case by simp
next
  case (2 cd ccs rest)
  let ?h = "getSubtreeHeight fl (Node cd ccs)"
  let ?cd1 = "placeChild cd (fl (fl (x p + CARD_WIDTH) + HORIZONTAL_SPACING))
                (fl (fl (yo + fl (?h / 2)) - fl (height cd / 2)))"
  have h: "getSubtreeHeight fl (Node ?cd1 (arrangeH fl ?cd1 (startH fl ?cd1 ccs) ccs)) = ?h"
    by (rule getSubtreeHeight_cong) (simp_all add: arrangeH_heights)
  show ?case
    by (simp add: Let_def h "2.IH")
qed

lemma arrangeRootsH_idem: "arrangeRootsH fl (arrangeRootsH fl t) = arrangeRootsH fl t"
  by (simp add: arrangeRootsH_def arrangeH_idem)

lemma positionChildrenV_unfold:
  "positionChildrenV fl (Node d cs) hc =
     (fst (forEachChildV fl d (startV fl d cs) cs hc),
      Node d (snd (forEachChildV fl d (startV fl d cs) cs hc)))"
  by (cases cs) (simp_all add: startV_def rowWidth_def Let_def split: prod.splits)

lemma forEachChildV_arrangeV:
  "forEachChildV fl p xo cs hc = (hc \<or> arrangeV fl p xo cs \<noteq> cs, arrangeV fl p xo cs)"
proof (induction cs arbitrary: p xo hc rule: subtrees.induct)
  case 1
  then show ?case by simp
next
  case (2 cd ccs rest)
  show ?case
    by (simp only: forEachChildV.simps placeChild_flag Let_def prod.case
        positionChildrenV_unfold "2.IH" fst_conv snd_conv arrangeV.simps)
       auto
qed

declare positionChildrenV.simps [simp del]

lemma layoutVertical_arrange:
  "layoutVertical fl t hc = (hc \<or> arrangeRootsV fl t \<noteq> t, arrangeRootsV fl t)"
proof (induction t arbitrary: hc)
  case Nil
  then show ?case by (simp add: arrangeRootsV_def)
next
  case (Cons n t)
  obtain d cs where n: "n = Node d cs" by (cases n)
  show ?case
    by (simp add: n positionChildrenV_unfold forEachChildV_arrangeV Cons.IH arrangeRootsV_def)
qed

lemma getSubtreeWidth_cong:
  "map (getSubtreeWidth fl) cs' = map (getSubtreeWidth fl) cs \<Longrightarrow>
   getSubtreeWidth fl (Node d' cs') = getSubtreeWidth fl (Node d cs)"
  using map_eq_imp_length_eq [of "getSubtreeWidth fl" cs' "getSubtreeWidth fl" cs] by simp

declare getSubtreeWidth.simps [simp del]

lemma arrangeV_widths:
  "map (getSubtreeWidth fl) (arrangeV fl p xo cs) = map (getSubtreeWidth fl) cs"
proof (induction cs arbitrary: p xo rule: subtrees.induct)
  case 1
  then show ?case by simp
next
  case (2 cd ccs rest)
  show ?case
    by (simp only: arrangeV.simps Let_def list.map "2.IH" list.inject simp_thms
        getSubtreeWidth_cong [OF "2.IH"(1)])
qed

lemma rowWidth_arrangeV [simp]: "rowWidth fl (arrangeV fl p xo cs) = rowWidth fl cs"
  by (simp add: rowWidth_def arrangeV_widths)

lemma startV_arrangeV [simp]: "startV fl d (arrangeV fl p xo cs) = startV fl d cs"
  by (simp add: startV_def)

lemma arrangeV_idem: "arrangeV fl p xo (arrangeV fl p xo cs) = arrangeV fl p xo cs"
proof (induction cs arbitrary: p xo rule: subtrees.induct)
  case 1
  then show ?case by simp
next
  case (2 cd ccs rest)
  let ?w = "getSubtreeWidth fl (Node cd ccs)"
  let ?cd1 = "placeChild cd (fl (fl (xo + fl (?w / 2)) - fl (CARD_WIDTH / 2)))
                (fl (fl (y p + height p) + VERTICAL_SPACING))"
  have w: "getSubtreeWidth fl (Node ?cd1 (arrangeV fl ?cd1 (startV fl ?cd1 ccs) ccs)) = ?w"
    by (rule getSubtreeWidth_cong) (simp_all add: arrangeV_widths)
  show ?case
    by (simp add: Let_def w "2.IH")
qed

lemma arrangeRootsV_idem: "arrangeRootsV fl (arrangeRootsV fl t) = arrangeRootsV fl t"
  by (simp add: arrangeRootsV_def arrangeV_idem)

lemma measured_flag:
  "(case hs (id d) of
      Some clientHeight \<Rightarrow>
        if clientHeight > 0 \<and> height d \<noteq> clientHeight
        then (True, d\<lparr>height := clientHeight\<rparr>)
        else (hc, d)
    | None \<Rightarrow> (hc, d))
   = (hc \<or> measured hs d \<noteq> d, measured hs d)"
proof -
  have "\<And>ch. d\<lparr>height := ch\<rparr> = d \<longleftrightarrow> height d = ch"
    by (cases d) auto
  then show ?thesis by (auto simp: measured_def split: option.splits)
qed

lemma updateHeights_measureAll:
  "updateHeights hs t hc = (hc \<or> measureAll hs t \<noteq> t, measureAll hs t)"
proof (induction t arbitrary: hc rule: subtrees.induct)
  case 1
  then show ?case by simp
next
  case (2 d cs rest)
  show ?case
    by (simp only: updateHeights.simps measured_flag Let_def prod.case "2.IH" measureAll.simps)
       auto
qed

lemma measured_idem [simp]: "measured hs (measured hs d) = measured hs d"
  by (simp add: measured_def split: option.splits)

lemma measureAll_idem: "measureAll hs (measureAll hs t) = measureAll hs t"
  by (induction t rule: subtrees.induct) simp_all

lemma arrangeH_length [simp]: "length (arrangeH fl p yo cs) = length cs"
  using arg_cong [OF arrangeH_heights [of fl p yo cs], of length] by simp

lemma slotOffset_0 [simp]: "slotOffset fl f g s cs 0 = s"
  by (simp add: slotOffset_def)

lemma slotOffset_Suc [simp]:
  "slotOffset fl f g s (c # cs) (Suc j) = slotOffset fl f g (fl (s + fl (f c + g))) cs j"
  by (simp add: slotOffset_def)

lemma slotOffset_cong:
  assumes "map f cs' = map f cs"
  shows "slotOffset fl f g s cs' i = slotOffset fl f g s cs i"
proof -
  have "\<And>zs. foldl (\<lambda>off c. fl (off + fl (f c + g))) s (take i zs)
            = foldl (\<lambda>off v. fl (off + fl (v + g))) s (take i (map f zs))"
    by (simp add: take_map foldl_map)
  with assms show ?thesis by (simp add: slotOffset_def)
qed

lemma arrangeH_nth:
  "i < length cs \<Longrightarrow> \<not> manual (arrangeH fl p yo cs ! i) \<Longrightarrow>
   x (data (arrangeH fl p yo cs ! i)) = fl (fl (x p + CARD_WIDTH) + HORIZONTAL_SPACING) \<and>
   y (data (arrangeH fl p yo cs ! i))
     = fl (fl (slotOffset fl (getSubtreeHeight fl) VERTICAL_SPACING yo cs i
               + fl (getSubtreeHeight fl (cs ! i) / 2))
           - fl (height (data (cs ! i)) / 2))"
proof (induction cs arbitrary: yo i)
  case Nil
  then show ?case by simp
next
  case (Cons c cs)
  obtain cd ccs where c: "c = Node cd ccs" by (cases c)
  show ?case
  proof (cases i)
    case 0
    with Cons.prems show ?thesis
      by (simp add: c Let_def manual_def placeChild_pos)
  next
    case (Suc j)
    with Cons.prems have j: "j < length cs"
      and m: "\<not> manual (arrangeH fl p (fl (yo + fl (getSubtreeHeight fl c + VERTICAL_SPACING))) cs ! j)"
      by (simp_all add: c Let_def)
    from Cons.IH [OF j m] show ?thesis
      by (simp add: Suc c Let_def)
  qed
qed

lemma arrangeH_nth_height:
  "i < length cs \<Longrightarrow> height (data (arrangeH fl p yo cs ! i)) = height (data (cs ! i))"
proof (induction cs arbitrary: yo i)
  case Nil
  then show ?case by simp
next
  case (Cons c cs)
  obtain cd ccs where c: "c = Node cd ccs" by (cases c)
  from Cons show ?case by (cases i) (simp_all add: c Let_def)
qed

lemma wellPlacedH_arrange: "wellPlacedH fl (Node d (arrangeH fl d (startH fl d cs) cs))"
proof -
  let ?cs' = "arrangeH fl d (startH fl d cs) cs"
  have hs: "map (getSubtreeHeight fl) ?cs' = map (getSubtreeHeight fl) cs"
    by (rule arrangeH_heights)
  show ?thesis
    unfolding wellPlacedH_def Let_def list_all_iff ChatNode.sel startH_arrangeH
  proof (intro ballI impI)
    fix i assume "i \<in> set [0..<length ?cs']" and m: "\<not> manual (?cs' ! i)"
    then have i: "i < length cs" by simp
    have "getSubtreeHeight fl (?cs' ! i) = getSubtreeHeight fl (cs ! i)"
      using arg_cong [OF hs, of "\<lambda>l. l ! i"] i by simp
    with arrangeH_nth [OF i m] arrangeH_nth_height [OF i, of fl d "startH fl d cs"]
      slotOffset_cong [OF hs, of fl VERTICAL_SPACING "startH fl d cs" i]
    show "x (data (?cs' ! i)) = fl (fl (x d + CARD_WIDTH) + HORIZONTAL_SPACING) \<and>
      y (data (?cs' ! i))
        = fl (fl (slotOffset fl (getSubtreeHeight fl) VERTICAL_SPACING (startH fl d cs) ?cs' i
                  + fl (getSubtreeHeight fl (?cs' ! i) / 2))
              - fl (height (data (?cs' ! i)) / 2))"
      by simp
  qed
qed

lemma subtrees_arrangeH:
  "n \<in> set (subtrees (arrangeH fl p yo cs)) \<Longrightarrow> wellPlacedH fl n"
proof (induction cs arbitrary: p yo rule: subtrees.induct)
  case 1
  then show ?case by simp
next
  case (2 cd ccs rest)
  then show ?case
    by (auto simp: Let_def wellPlacedH_arrange)
qed

lemma subtrees_arrangeRootsH:
  "n \<in> set (subtrees (arrangeRootsH fl t)) \<Longrightarrow> wellPlacedH fl n"
proof (induction t)
  case Nil
  then show ?case by (simp add: arrangeRootsH_def)
next
  case (Cons r t)
  obtain d cs where r: "r = Node d cs" by (cases r)
  from Cons show ?case
    by (auto simp: r arrangeRootsH_def wellPlacedH_arrange dest: subtrees_arrangeH)
qed

lemma arrangeV_length [simp]: "length (arrangeV fl p xo cs) = length cs"
  using arg_cong [OF arrangeV_widths [of fl p xo cs], of length] by simp

lemma arrangeV_nth:
  "i < length cs \<Longrightarrow> \<not> manual (arrangeV fl p xo cs ! i) \<Longrightarrow>
   y (data (arrangeV fl p xo cs ! i)) = fl (fl (y p + height p) + VERTICAL_SPACING) \<and>
   x (data (arrangeV fl p xo cs ! i))
     = fl (fl (slotOffset fl (getSubtreeWidth fl) HORIZONTAL_SPACING xo cs i
               + fl (getSubtreeWidth fl (cs ! i) / 2))
           - fl (CARD_WIDTH / 2))"
proof (induction cs arbitrary: xo i)
  case Nil
  then show ?case by simp
next
  case (Cons c cs)
  obtain cd ccs where c: "c = Node cd ccs" by (cases c)
  show ?case
  proof (cases i)
    case 0
    with Cons.prems show ?thesis
      by (simp add: c Let_def manual_def placeChild_pos)
  next
    case (Suc j)
    with Cons.prems have j: "j < length cs"
      and m: "\<not> manual (arrangeV fl p (fl (xo + fl (getSubtreeWidth fl c + HORIZONTAL_SPACING))) cs ! j)"
      by (simp_all add: c Let_def)
    from Cons.IH [OF j m] show ?thesis
      by (simp add: Suc c Let_def)
  qed
qed

lemma wellPlacedV_arrange: "wellPlacedV fl (Node d (arrangeV fl d (startV fl d cs) cs))"
proof -
  let ?cs' = "arrangeV fl d (startV fl d cs) cs"
  have ws: "map (getSubtreeWidth fl) ?cs' = map (getSubtreeWidth fl) cs"
    by (rule arrangeV_widths)
  show ?thesis
    unfolding wellPlacedV_def Let_def list_all_iff ChatNode.sel startV_arrangeV
  proof (intro ballI impI)
    fix i assume "i \<in> set [0..<length ?cs']" and m: "\<not> manual (?cs' ! i)"
    then have i: "i < length cs" by simp
    have "getSubtreeWidth fl (?cs' ! i) = getSubtreeWidth fl (cs ! i)"
      using arg_cong [OF ws, of "\<lambda>l. l ! i"] i by simp
    with arrangeV_nth [OF i m]
      slotOffset_cong [OF ws, of fl HORIZONTAL_SPACING "startV fl d cs" i]
    show "y (data (?cs' ! i)) = fl (fl (y d + height d) + VERTICAL_SPACING) \<and>
      x (data (?cs' ! i))
        = fl (fl (slotOffset fl (getSubtreeWidth fl) HORIZONTAL_SPACING (startV fl d cs) ?cs' i
                  + fl (getSubtreeWidth fl (?cs' ! i) / 2))
              - fl (CARD_WIDTH / 2))"
      by simp
  qed
qed

lemma subtrees_arrangeV:
  "n \<in> set (subtrees (arrangeV fl p xo cs)) \<Longrightarrow> wellPlacedV fl n"
proof (induction cs arbitrary: p xo rule: subtrees.induct)
  case 1
  then show ?case by simp
next
  case (2 cd ccs rest)
  then show ?case
    by (auto simp: Let_def wellPlacedV_arrange)
qed

lemma subtrees_arrangeRootsV:
  "n \<in> set (subtrees (arrangeRootsV fl t)) \<Longrightarrow> wellPlacedV fl n"
proof (induction t)
  case Nil
  then show ?case by (simp add: arrangeRootsV_def)
next
  case (Cons r t)
  obtain d cs where r: "r = Node d cs" by (cases r)
  from Cons show ?case
    by (auto simp: r arrangeRootsV_def wellPlacedV_arrange dest: subtrees_arrangeV)
qed

lemma frameD_refl [simp]: "frameD d d"
  by (simp add: frameD_def)


lemma frameD_placeChild [simp]: "frameD cd (placeChild cd nx ny)"
  by (simp add: frameD_def placeChild_def)

lemma frameD_measured [simp]: "frameD d (measured hs d)"
  by (simp add: frameD_def measured_def split: option.splits)






lemma measured_fixed_iff:
  "measured hs d = d \<longleftrightarrow> (\<forall>ch. hs (id d) = Some ch \<longrightarrow> ch > 0 \<longrightarrow> height d = ch)"
proof -
  have "\<And>ch. d\<lparr>height := ch\<rparr> = d \<longleftrightarrow> height d = ch"
    by (cases d) auto
  then show ?thesis by (auto simp: measured_def split: option.splits)
qed

lemma measured_placeChild:
  "measured hs cd = cd \<Longrightarrow> measured hs (placeChild cd nx ny) = placeChild cd nx ny"
  by (simp add: measured_fixed_iff)

lemma stable_arrangeH:
  "measureAll hs cs = cs \<Longrightarrow> measureAll hs (arrangeH fl p yo cs) = arrangeH fl p yo cs"
  by (induction cs arbitrary: p yo rule: subtrees.induct)
     (simp_all add: Let_def measured_placeChild)

lemma stable_arrangeV:
  "measureAll hs cs = cs \<Longrightarrow> measureAll hs (arrangeV fl p xo cs) = arrangeV fl p xo cs"
  by (induction cs arbitrary: p xo rule: subtrees.induct)
     (simp_all add: Let_def measured_placeChild)

lemma stable_arrangeRootsH:
  "measureAll hs t = t \<Longrightarrow> measureAll hs (arrangeRootsH fl t) = arrangeRootsH fl t"
proof (induction t)
  case Nil
  then show ?case by (simp add: arrangeRootsH_def)
next
  case (Cons r t)
  obtain d cs where r: "r = Node d cs" by (cases r)
  from Cons.prems have p: "measured hs d = d" "measureAll hs cs = cs" "measureAll hs t = t"
    by (simp_all add: r)
  from Cons.IH [OF p(3)] p show ?case
    by (simp add: r arrangeRootsH_def stable_arrangeH)
qed

lemma stable_arrangeRootsV:
  "measureAll hs t = t \<Longrightarrow> measureAll hs (arrangeRootsV fl t) = arrangeRootsV fl t"
proof (induction t)
  case Nil
  then show ?case by (simp add: arrangeRootsV_def)
next
  case (Cons r t)
  obtain d cs where r: "r = Node d cs" by (cases r)
  from Cons.prems have p: "measured hs d = d" "measureAll hs cs = cs" "measureAll hs t = t"
    by (simp_all add: r)
  from Cons.IH [OF p(3)] p show ?case
    by (simp add: r arrangeRootsV_def stable_arrangeV)
qed

lemma stable_arrangeRoots:
  "measureAll hs t = t \<Longrightarrow> measureAll hs (arrangeRoots fl m t) = arrangeRoots fl m t"
  by (simp add: arrangeRoots_def stable_arrangeRootsH stable_arrangeRootsV)

lemma arrangeRoots_idem: "arrangeRoots fl m (arrangeRoots fl m t) = arrangeRoots fl m t"
  by (simp add: arrangeRoots_def arrangeRootsH_idem arrangeRootsV_idem)

lemma layoutPass_arrange:
  "layoutPass fl hs m t =
     (measureAll hs t \<noteq> t \<or> arrangeRoots fl m (measureAll hs t) \<noteq> measureAll hs t,
      arrangeRoots fl m (measureAll hs t))"
  by (simp add: layoutPass_def updateHeights_measureAll layoutHorizontal_arrange
      layoutVertical_arrange arrangeRoots_def)

lemma layoutEffect_arrange: "layoutEffect fl hs m t = arrangeRoots fl m (measureAll hs t)"
  by (auto simp: layoutEffect_def layoutPass_arrange)

lemma layoutPass_stable:
  "layoutPass fl hs m (layoutEffect fl hs m t) = (False, layoutEffect fl hs m t)"
  by (simp add: layoutEffect_arrange layoutPass_arrange measureAll_idem stable_arrangeRoots
      arrangeRoots_idem)

lemma layoutEffect_idem:
  "layoutEffect fl hs m (layoutEffect fl hs m t) = layoutEffect fl hs m t"
  by (simp add: layoutEffect_arrange measureAll_idem stable_arrangeRoots arrangeRoots_idem)


section \<open>The layout in exact arithmetic\<close>

lemma foldl_gaps:
  "foldl (\<lambda>acc h. acc + h + g) a hs = a + sum_list hs + of_nat (length hs) * (g::rat)"
  by (induction hs arbitrary: a) (simp_all add: algebra_simps)

lemma getSubtreeHeight_exact: "getSubtreeHeight (\<lambda>r. r) n = subtreeHeight_spec n"
proof (induction n rule: subtreeHeight_spec.induct)
  case (1 d cs)
  show ?case
  proof (cases "cs = []")
    case True
    then show ?thesis by (simp add: getSubtreeHeight.simps)
  next
    case False
    with 1 have m: "map (getSubtreeHeight (\<lambda>r. r)) cs = map subtreeHeight_spec cs" by simp
    have "foldl (\<lambda>acc h. acc + h + VERTICAL_SPACING) (- VERTICAL_SPACING)
            (map (getSubtreeHeight (\<lambda>r. r)) cs)
        = sum_list (map subtreeHeight_spec cs) + (of_nat (length cs) - 1) * VERTICAL_SPACING"
      unfolding foldl_gaps m by (simp add: algebra_simps)
    with False show ?thesis
      by (simp add: getSubtreeHeight.simps)
  qed
qed

lemma getSubtreeHeight_exact_fun: "getSubtreeHeight (\<lambda>r. r) = subtreeHeight_spec"
  by (rule ext) (rule getSubtreeHeight_exact)

lemma stackHeight_exact:
  "stackHeight (\<lambda>r. r) cs
     = sum_list (map subtreeHeight_spec cs) + (of_nat (length cs) - 1) * VERTICAL_SPACING"
  unfolding stackHeight_def foldl_gaps getSubtreeHeight_exact_fun by (simp add: algebra_simps)

lemma foldl_slots:
  "foldl (\<lambda>off c. off + (f c + g)) s cs = s + sum_list (map (\<lambda>c. f c + g) cs)"
  for s :: rat
  by (induction cs arbitrary: s) (simp_all add: algebra_simps)

lemma slotOffset_exact: "slotOffset (\<lambda>r. r) f g s cs i = s + slotStart f g cs i"
  by (simp add: slotOffset_def slotStart_def foldl_slots)

lemma wellPlacedH_exact: "wellPlacedH (\<lambda>r. r) n \<Longrightarrow> centredH n"
  by (simp add: wellPlacedH_def centredH_def Let_def list_all_iff slotOffset_exact
      startH_def stackHeight_exact getSubtreeHeight_exact_fun)

section \<open>Layout: placement, stability, manual positions\<close>

lemma layoutHorizontal_snd: "snd (layoutHorizontal fl t hc) = arrangeRootsH fl t"
  by (simp add: layoutHorizontal_arrange)

lemma layoutEffect_Horizontal:
  "layoutEffect fl hs Horizontal t = arrangeRootsH fl (measureAll hs t)"
  by (simp add: layoutEffect_arrange arrangeRoots_def)

lemma layoutEffect_Vertical:
  "layoutEffect fl hs Vertical t = arrangeRootsV fl (measureAll hs t)"
  by (simp add: layoutEffect_arrange arrangeRoots_def)

lemma layoutEffect_wellPlaced:
  "n \<in> set (subtrees (layoutEffect fl hs m t)) \<Longrightarrow> wellPlaced fl m n"
  by (cases m)
     (simp_all add: wellPlaced_def layoutEffect_Horizontal layoutEffect_Vertical
        subtrees_arrangeRootsH subtrees_arrangeRootsV)

lemma centeringExample_layout:
  assumes "\<forall>k::int. \<bar>k\<bar> < 9007199254740992 \<longrightarrow> fl (of_int k) = of_int k"
  shows "layoutPass fl (\<lambda>i. None) Horizontal centeringExample =
     (True,
      [Node \<lparr>id = 1, quotedText = None, x = 725, y = 500, height = 200,
             manualPosition = None, conversation = [], isThinking = None\<rparr>
        [Node \<lparr>id = 2, quotedText = None, x = 1525, y = 460, height = 100,
                manualPosition = None, conversation = [], isThinking = None\<rparr> [],
         Node \<lparr>id = 3, quotedText = None, x = 1525, y = 640, height = 100,
                manualPosition = None, conversation = [], isThinking = None\<rparr> []]])"
    and "layoutHorizontal fl centeringExample False =
     (True,
      [Node \<lparr>id = 1, quotedText = None, x = 725, y = 500, height = 200,
             manualPosition = None, conversation = [], isThinking = None\<rparr>
        [Node \<lparr>id = 2, quotedText = None, x = 1525, y = 460, height = 100,
                manualPosition = None, conversation = [], isThinking = None\<rparr> [],
         Node \<lparr>id = 3, quotedText = None, x = 1525, y = 640, height = 100,
                manualPosition = None, conversation = [], isThinking = None\<rparr> []]])"
proof -
  have pos: "\<And>n. (numeral n :: int) < 9007199254740992 \<Longrightarrow> fl (numeral n) = numeral n"
  proof -
    fix n :: num
    assume "(numeral n :: int) < 9007199254740992"
    with assms [rule_format, of "numeral n"] show "fl (numeral n) = numeral n" by simp
  qed
  have neg: "\<And>n. (numeral n :: int) < 9007199254740992 \<Longrightarrow> fl (- numeral n) = - numeral n"
  proof -
    fix n :: num
    assume "(numeral n :: int) < 9007199254740992"
    with assms [rule_format, of "- numeral n"] show "fl (- numeral n) = - numeral n" by simp
  qed
  show "layoutHorizontal fl centeringExample False =
     (True,
      [Node \<lparr>id = 1, quotedText = None, x = 725, y = 500, height = 200,
             manualPosition = None, conversation = [], isThinking = None\<rparr>
        [Node \<lparr>id = 2, quotedText = None, x = 1525, y = 460, height = 100,
                manualPosition = None, conversation = [], isThinking = None\<rparr> [],
         Node \<lparr>id = 3, quotedText = None, x = 1525, y = 640, height = 100,
                manualPosition = None, conversation = [], isThinking = None\<rparr> []]])"
    by (simp add: centeringExample_def positionChildrenH.simps getSubtreeHeight.simps
        CARD_WIDTH_def HORIZONTAL_SPACING_def VERTICAL_SPACING_def truthyFlag_def Let_def
        pos neg)
  then show "layoutPass fl (\<lambda>i. None) Horizontal centeringExample =
     (True,
      [Node \<lparr>id = 1, quotedText = None, x = 725, y = 500, height = 200,
             manualPosition = None, conversation = [], isThinking = None\<rparr>
        [Node \<lparr>id = 2, quotedText = None, x = 1525, y = 460, height = 100,
                manualPosition = None, conversation = [], isThinking = None\<rparr> [],
         Node \<lparr>id = 3, quotedText = None, x = 1525, y = 640, height = 100,
                manualPosition = None, conversation = [], isThinking = None\<rparr> []]])"
    by (simp add: layoutPass_def centeringExample_def)
qed

text \<open>
  C2: after the horizontal layout, in every node of the tree each child without the manual
  flag has \<open>x = parent.x + CARD_WIDTH + HORIZONTAL_SPACING\<close> and is centred vertically
  in its slot; the slots follow each other with the vertical gap between them and the
  stack as a whole is centred on the vertical centre of the parent. This holds in the
  arithmetic of the code, whatever the rounding of a single operation is, with the sums
  taken in the order of the code; the subtree height is the larger of the own height and
  the running sum of the children's subtree heights and gaps. In exact arithmetic these
  are the closed forms: the sum of the subtree heights plus one gap between neighbours,
  and the equation between the centre of a child and the centre of its slot. In the
  example all values are integers, which the number type represents exactly, and the
  children get the y-positions 460 and 640.
\<close>

theorem layoutHorizontal_places_children:
  "(\<forall>n \<in> set (subtrees (snd (layoutHorizontal fl t hc))). wellPlacedH fl n)
   \<and> (\<forall>n \<in> set (subtrees (layoutEffect fl hs Horizontal t)). wellPlacedH fl n)
   \<and> getSubtreeHeight fl node
       = (if children node = [] then height (data node)
          else max (height (data node)) (stackHeight fl (children node)))
   \<and> (\<forall>n \<in> set (subtrees (snd (layoutHorizontal (\<lambda>r. r) t hc))). centredH n)
   \<and> (\<forall>n \<in> set (subtrees (layoutEffect (\<lambda>r. r) hs Horizontal t)). centredH n)
   \<and> getSubtreeHeight (\<lambda>r. r) node = subtreeHeight_spec node
   \<and> ((\<forall>k::int. \<bar>k\<bar> < 9007199254740992 \<longrightarrow> fl (of_int k) = of_int k) \<longrightarrow>
        map (\<lambda>c. (x (data c), y (data c)))
          (children (hd (snd (layoutHorizontal fl centeringExample False))))
        = [(1525, 460), (1525, 640)])"
proof -
  have a: "\<forall>n \<in> set (subtrees (snd (layoutHorizontal fl t hc))). wellPlacedH fl n"
    for fl :: "rat \<Rightarrow> rat"
    using subtrees_arrangeRootsH by (simp add: layoutHorizontal_snd)
  have b: "\<forall>n \<in> set (subtrees (layoutEffect fl hs Horizontal t)). wellPlacedH fl n"
    for fl :: "rat \<Rightarrow> rat"
    using subtrees_arrangeRootsH by (simp add: layoutEffect_Horizontal)
  have c: "getSubtreeHeight fl node
       = (if children node = [] then height (data node)
          else max (height (data node)) (stackHeight fl (children node)))"
    by (cases node) (simp add: getSubtreeHeight.simps stackHeight_def)
  have d: "\<forall>n \<in> set (subtrees (snd (layoutHorizontal (\<lambda>r. r) t hc))). centredH n"
    using a [of "\<lambda>r. r"] wellPlacedH_exact by blast
  have e: "\<forall>n \<in> set (subtrees (layoutEffect (\<lambda>r. r) hs Horizontal t)). centredH n"
    using b [of "\<lambda>r. r"] wellPlacedH_exact by blast
  have f: "(\<forall>k::int. \<bar>k\<bar> < 9007199254740992 \<longrightarrow> fl (of_int k) = of_int k) \<longrightarrow>
        map (\<lambda>c. (x (data c), y (data c)))
          (children (hd (snd (layoutHorizontal fl centeringExample False))))
        = [(1525, 460), (1525, 640)]"
    by (simp add: centeringExample_layout(2))
  from a [of fl] b [of fl] c d e f getSubtreeHeight_exact [of node] show ?thesis
    by (intro conjI)
qed

theorem layoutHorizontal_places_children_witness:
  "hd (snd (layoutHorizontal (\<lambda>r. r) centeringExample False))
     \<in> set (subtrees (snd (layoutHorizontal (\<lambda>r. r) centeringExample False)))
   \<and> list_all (\<lambda>c. \<not> manual c)
       (children (hd (snd (layoutHorizontal (\<lambda>r. r) centeringExample False))))
   \<and> wellPlacedH (\<lambda>r. r) (hd (snd (layoutHorizontal (\<lambda>r. r) centeringExample False)))
   \<and> centredH (hd (snd (layoutHorizontal (\<lambda>r. r) centeringExample False)))
   \<and> map (\<lambda>c. y (data c))
       (children (hd (snd (layoutHorizontal (\<lambda>r. r) centeringExample False))))
       = [460, 640]"
proof -
  have ex: "\<forall>k::int. \<bar>k\<bar> < 9007199254740992 \<longrightarrow> (\<lambda>r::rat. r) (of_int k) = of_int k"
    by simp
  note inst = layoutHorizontal_places_children
    [where fl = "\<lambda>r. r" and t = centeringExample and hc = False]
  from inst ex
  have ev: "map (\<lambda>c. (x (data c), y (data c)))
          (children (hd (snd (layoutHorizontal (\<lambda>r. r) centeringExample False))))
        = [(1525, 460), (1525, 640)]"
    by blast
  have mem: "hd (snd (layoutHorizontal (\<lambda>r. r) centeringExample False))
     \<in> set (subtrees (snd (layoutHorizontal (\<lambda>r. r) centeringExample False)))"
    by (simp add: centeringExample_layout(2))
  from inst mem
  have wp: "wellPlacedH (\<lambda>r. r) (hd (snd (layoutHorizontal (\<lambda>r. r) centeringExample False)))"
    and ce: "centredH (hd (snd (layoutHorizontal (\<lambda>r. r) centeringExample False)))"
    by blast+
  have nm: "list_all (\<lambda>c. \<not> manual c)
       (children (hd (snd (layoutHorizontal (\<lambda>r. r) centeringExample False))))"
    by (simp add: centeringExample_layout(2) manual_def truthyFlag_def)
  have ys: "map (\<lambda>c. y (data c))
       (children (hd (snd (layoutHorizontal (\<lambda>r. r) centeringExample False))))
       = [460, 640]"
    using arg_cong [OF ev, of "map snd"] by (simp add: comp_def)
  from mem nm wp ce ys show ?thesis by (intro conjI)
qed

text \<open>
  C3: with the measured heights unchanged, running the effect on the tree state left by a
  first run sets no flag and returns that same tree, in either mode; so no node position
  differs. The same holds for the two layout functions on their own. Nothing is assumed
  of the rounding of the arithmetic.
\<close>

theorem layout_second_run_changes_nothing:
  "layoutPass fl hs m (layoutEffect fl hs m t) = (False, layoutEffect fl hs m t)
   \<and> layoutEffect fl hs m (layoutEffect fl hs m t) = layoutEffect fl hs m t
   \<and> layoutHorizontal fl (snd (layoutHorizontal fl t hc)) False
       = (False, snd (layoutHorizontal fl t hc))
   \<and> layoutVertical fl (snd (layoutVertical fl t hc)) False
       = (False, snd (layoutVertical fl t hc))"
  by (simp add: layoutPass_stable layoutEffect_idem layoutHorizontal_arrange
      layoutVertical_arrange arrangeRootsH_idem arrangeRootsV_idem)

theorem layout_second_run_changes_nothing_witness:
  "fst (layoutPass (\<lambda>r. r) (\<lambda>i. None) Horizontal centeringExample)
   \<and> map (\<lambda>d. (id d, x d, y d))
       (flatten (layoutEffect (\<lambda>r. r) (\<lambda>i. None) Horizontal centeringExample))
       = [(1, 725, 500), (2, 1525, 460), (3, 1525, 640)]
   \<and> layoutPass (\<lambda>r. r) (\<lambda>i. None) Horizontal
       (layoutEffect (\<lambda>r. r) (\<lambda>i. None) Horizontal centeringExample)
       = (False, layoutEffect (\<lambda>r. r) (\<lambda>i. None) Horizontal centeringExample)"
proof -
  have p: "layoutPass (\<lambda>r. r) (\<lambda>i. None) Horizontal centeringExample =
     (True,
      [Node \<lparr>id = 1, quotedText = None, x = 725, y = 500, height = 200,
             manualPosition = None, conversation = [], isThinking = None\<rparr>
        [Node \<lparr>id = 2, quotedText = None, x = 1525, y = 460, height = 100,
                manualPosition = None, conversation = [], isThinking = None\<rparr> [],
         Node \<lparr>id = 3, quotedText = None, x = 1525, y = 640, height = 100,
                manualPosition = None, conversation = [], isThinking = None\<rparr> []]])"
    by (rule centeringExample_layout(1)) simp
  then have "map (\<lambda>d. (id d, x d, y d))
       (flatten (layoutEffect (\<lambda>r. r) (\<lambda>i. None) Horizontal centeringExample))
       = [(1, 725, 500), (2, 1525, 460), (3, 1525, 640)]"
    by (simp add: layoutEffect_def)
  with p layout_second_run_changes_nothing
    [where fl = "\<lambda>r. r" and hs = "\<lambda>i. None" and m = Horizontal and t = centeringExample]
  show ?thesis by simp
qed



section \<open>The layout in binary64 arithmetic\<close>

lemma roundHalfEven_of_int [simp]: "roundHalfEven (of_int m) = m"
  by (simp add: roundHalfEven_def)

lemma exponentOf_of_int:
  assumes "k \<noteq> 0"
  shows "exponentOf (of_int k) = bitlen \<bar>k\<bar> - 1"
proof -
  have pos: "0 < \<bar>k\<bar>" using assms by simp
  have q: "quotient_of \<bar>of_int k :: rat\<bar> = (\<bar>k\<bar>, 1)"
    by (simp flip: of_int_abs)
  have b1: "bitlen 1 = 1"
    by (simp add: bitlen_alt_def)
  from bitlen_bounds [OF pos] have lo: "2 ^ nat (bitlen \<bar>k\<bar> - 1) \<le> \<bar>k\<bar>" by simp
  from pos have ge: "1 \<le> bitlen \<bar>k\<bar>" by (simp add: bitlen_alt_def)
  have "(2::rat) powi (bitlen \<bar>k\<bar> - 1) = 2 ^ nat (bitlen \<bar>k\<bar> - 1)"
    using ge by (simp add: power_int_def)
  also have "\<dots> = of_int (2 ^ nat (bitlen \<bar>k\<bar> - 1))" by simp
  also have "\<dots> \<le> of_int \<bar>k\<bar>" using lo by (simp only: of_int_le_iff)
  finally have "\<not> \<bar>of_int k :: rat\<bar> < 2 powi (bitlen \<bar>k\<bar> - 1)"
    by (simp flip: of_int_abs)
  then show ?thesis
    by (simp add: exponentOf_def q b1 Let_def)
qed

text \<open>Every integer below \<open>2\<^sup>5\<^sup>3\<close> in magnitude is a binary64 number.\<close>

lemma binary64_of_int:
  assumes "\<bar>k\<bar> < 9007199254740992"
  shows "binary64 (of_int k) = of_int k"
proof (cases "k = 0")
  case True
  then show ?thesis by (simp add: binary64_def)
next
  case False
  then have pos: "0 < \<bar>k\<bar>" by simp
  define e where "e = bitlen \<bar>k\<bar> - 1"
  from pos have e0: "0 \<le> e" by (simp add: e_def bitlen_alt_def)
  have "\<bar>k\<bar> < 2 ^ nat 53" using assms by simp
  then have "bitlen \<bar>k\<bar> \<le> 53" by (simp add: bitlen_le_iff_power)
  then have e52: "e \<le> 52" by (simp add: e_def)
  define n where "n = nat (52 - e)"
  have ex: "exponentOf (of_int k) = e"
    by (simp add: exponentOf_of_int [OF False] e_def)
  have mx: "max (e - 52) (- 1074) = - int n"
    using e0 e52 by (simp add: n_def)
  have ulp: "(2::rat) powi (- int n) = 1 / 2 ^ n"
    by (simp add: power_int_minus field_simps)
  have "rat_of_int k * 2 ^ n = of_int (k * 2 ^ n)"
    by simp
  then have r: "roundHalfEven (rat_of_int k * 2 ^ n) = k * 2 ^ n"
    by (simp only: roundHalfEven_of_int)
  from False show ?thesis
    by (simp add: binary64_def ex mx ulp r Let_def)
qed

lemma binary64_numeral:
  "(numeral n :: int) < 9007199254740992 \<Longrightarrow> binary64 (numeral n) = numeral n"
  using binary64_of_int [of "numeral n"] by simp

lemma binary64_neg_numeral:
  "(numeral n :: int) < 9007199254740992 \<Longrightarrow> binary64 (- numeral n) = - numeral n"
  using binary64_of_int [of "- numeral n"] by simp

text \<open>
  The numbers that the layout of \<open>draggedExample\<close> computes: the position of the
  dragged node, the \<open>x\<close> of its children, \<open>(0.1 + 700) + 100\<close>, and their \<open>y\<close>,
  from the offset \<open>(0.2 + 50) - 140\<close>.
\<close>

lemma binary64_values:
  "binary64 (1 / 10) = 3602879701896397 / 36028797018963968"
  "binary64 (1 / 5) = 3602879701896397 / 18014398509481984"
  "binary64 (binary64 (binary64 (1 / 10) + 700) + 100) = 7037754027068621 / 8796093022208"
  "binary64 (binary64 (binary64 (binary64 (binary64 (1 / 5) + 50) - 140) + 50) - 50)
     = - (6319113227154227 / 70368744177664)"
  "binary64 (binary64 (binary64 (binary64 (binary64 (binary64 (1 / 5) + 50) - 140) + 180) + 50) - 50)
     = 1586815181206323 / 17592186044416"
  by code_simp+

lemma draggedExample_layout:
  "layoutEffect binary64 (\<lambda>i. None) Horizontal draggedExample =
     [Node \<lparr>id = 1, quotedText = None, x = 725, y = 500, height = 200,
             manualPosition = None, conversation = [], isThinking = None\<rparr>
        [Node \<lparr>id = 2, quotedText = None, x = binary64 (1 / 10), y = binary64 (1 / 5),
                height = 100, manualPosition = Some True, conversation = [],
                isThinking = None\<rparr>
           [Node \<lparr>id = 3, quotedText = None, x = 7037754027068621 / 8796093022208,
                   y = - (6319113227154227 / 70368744177664), height = 100,
                   manualPosition = None, conversation = [], isThinking = None\<rparr> [],
            Node \<lparr>id = 4, quotedText = None, x = 7037754027068621 / 8796093022208,
                   y = 1586815181206323 / 17592186044416, height = 100,
                   manualPosition = None, conversation = [], isThinking = None\<rparr> []]]]"
  by (simp add: layoutEffect_def layoutPass_def draggedExample_def positionChildrenH.simps
        getSubtreeHeight.simps CARD_WIDTH_def HORIZONTAL_SPACING_def VERTICAL_SPACING_def
        truthyFlag_def Let_def binary64_numeral binary64_neg_numeral binary64_values(3-5))

text \<open>
  In binary64 arithmetic the centring example has the same result as in exact arithmetic,
  all its values being integers. Below the node dragged to \<open>(0.1, 0.2)\<close> the layout
  leaves that node where it is and puts its children at \<open>x = 800.1\<close> and at
  \<open>y = -89.8\<close> and \<open>y = 90.19999999999999\<close>, the numbers that the operations of the
  code give one after the other. These satisfy the placement relation in the arithmetic
  of the code. They are not the values of the exact closed form: \<open>0.1 + 800\<close> is not a
  binary64 number.
\<close>

lemma layout_binary64_examples:
  "map (\<lambda>c. (x (data c), y (data c)))
     (children (hd (snd (layoutHorizontal binary64 centeringExample False))))
     = [(1525, 460), (1525, 640)]"
  "map (\<lambda>d. (id d, x d, y d)) (flatten (layoutEffect binary64 (\<lambda>i. None) Horizontal draggedExample))
     = [(1, 725, 500),
        (2, binary64 (1 / 10), binary64 (1 / 5)),
        (3, binary64 (8001 / 10), binary64 (- (449 / 5))),
        (4, binary64 (8001 / 10), binary64 (451 / 5) - 1 / 2 ^ 46)]"
  "list_all (wellPlacedH binary64)
     (subtrees (layoutEffect binary64 (\<lambda>i. None) Horizontal draggedExample))"
  "\<not> centredH (hd (children (hd (layoutEffect binary64 (\<lambda>i. None) Horizontal draggedExample))))"
  "binary64 (8001 / 10) \<noteq> binary64 (1 / 10) + 800"
proof -
  have ex: "\<forall>k::int. \<bar>k\<bar> < 9007199254740992 \<longrightarrow> binary64 (of_int k) = of_int k"
    by (simp add: binary64_of_int)
  show "map (\<lambda>c. (x (data c), y (data c)))
     (children (hd (snd (layoutHorizontal binary64 centeringExample False))))
     = [(1525, 460), (1525, 640)]"
    by (simp add: centeringExample_layout(2) [OF ex])
  have v: "binary64 (8001 / 10) = 7037754027068621 / 8796093022208"
    "binary64 (- (449 / 5)) = - (6319113227154227 / 70368744177664)"
    "binary64 (451 / 5) = 6347260724825293 / 70368744177664"
    by code_simp+
  show "map (\<lambda>d. (id d, x d, y d)) (flatten (layoutEffect binary64 (\<lambda>i. None) Horizontal draggedExample))
     = [(1, 725, 500),
        (2, binary64 (1 / 10), binary64 (1 / 5)),
        (3, binary64 (8001 / 10), binary64 (- (449 / 5))),
        (4, binary64 (8001 / 10), binary64 (451 / 5) - 1 / 2 ^ 46)]"
    by (simp add: draggedExample_layout v)
  show "list_all (wellPlacedH binary64)
     (subtrees (layoutEffect binary64 (\<lambda>i. None) Horizontal draggedExample))"
    using layoutEffect_wellPlaced [of _ binary64 "\<lambda>i. None" Horizontal draggedExample]
    by (simp add: list_all_iff wellPlaced_def)
  show "\<not> centredH (hd (children (hd (layoutEffect binary64 (\<lambda>i. None) Horizontal draggedExample))))"
    by (simp add: draggedExample_layout centredH_def slotStart_def manual_def truthyFlag_def
        CARD_WIDTH_def HORIZONTAL_SPACING_def VERTICAL_SPACING_def Let_def binary64_values(1,2))
  show "binary64 (8001 / 10) \<noteq> binary64 (1 / 10) + 800"
    by (simp add: v binary64_values)
qed

section \<open>The root node\<close>

lemma addChild_Nil [simp]: "addChild s n [] = []"
  by (simp add: addChild.simps [of s n "[]"])

lemma addChild_Cons [simp]:
  "addChild s n (Node d cs # rest) =
     (if id d = s then Node d (cs @ [n])
      else if length cs > 0 then Node d (addChild s n cs) else Node d cs) # addChild s n rest"
  by (simp add: addChild.simps [of s n "Node d cs # rest"] addChild.simps [of s n rest])

lemma rootIds_addChild: "rootIds (addChild s n t) = rootIds t"
  by (induction t rule: subtrees.induct) (simp_all add: rootIds_def)

lemma rootIds_updatePosition: "rootIds (updatePosition c nx ny t) = rootIds t"
  by (induction t rule: subtrees.induct) (simp_all add: rootIds_def)

lemma rootIds_appendMessage: "rootIds (map (appendMessage c m) t) = rootIds t"
  by (induction t rule: subtrees.induct) (simp_all add: rootIds_def)

lemma rootIds_setErrorState: "rootIds (map (setErrorState c) t) = rootIds t"
  by (induction t rule: subtrees.induct) (simp_all add: rootIds_def)

lemma rootIds_addAssistantPlaceholder: "rootIds (map (addAssistantPlaceholder c) t) = rootIds t"
  by (induction t rule: subtrees.induct) (simp_all add: rootIds_def)

lemma rootIds_appendResponseChunk: "rootIds (map (appendResponseChunk c v) t) = rootIds t"
  by (induction t rule: subtrees.induct) (simp_all add: rootIds_def)

lemma rootIds_measureAll: "rootIds (measureAll hs t) = rootIds t"
  by (induction t rule: subtrees.induct) (simp_all add: rootIds_def measured_def split: option.splits)

lemma rootIds_arrangeRoots: "rootIds (arrangeRoots fl m t) = rootIds t"
  by (simp add: rootIds_def arrangeRoots_def arrangeRootsH_def arrangeRootsV_def)

lemma rootIds_layoutEffect: "rootIds (layoutEffect fl hs m t) = rootIds t"
  by (simp add: layoutEffect_arrange rootIds_arrangeRoots rootIds_measureAll)

lemma rootIds_removeNode: "rootIds (removeNode c t) = filter (\<lambda>i. i \<noteq> c) (rootIds t)"
  by (induction t rule: subtrees.induct) (simp_all add: rootIds_def)

lemma offered_keeps_first_root:
  assumes "t \<noteq> []" and "offered t a"
  shows "applyAction a t \<noteq> [] \<and> hd (rootIds (applyAction a t)) = hd (rootIds t)"
proof -
  from assms(1) have ne: "rootIds t \<noteq> []" by (simp add: rootIds_def)
  have "rootIds (applyAction a t) \<noteq> [] \<and> hd (rootIds (applyAction a t)) = hd (rootIds t)"
  proof (cases a)
    case (Delete c)
    with assms have "c \<noteq> hd (rootIds t)"
      by (cases t) (simp_all add: deleteOffered_def isRoot_def rootIds_def)
    with ne Delete show ?thesis
      by (cases "rootIds t") (simp_all add: handleDelete_def rootIds_removeNode)
  qed (simp_all add: ne handleCreateFromSelection_def handleBranch_def
         handleChatPositionChange_def rootIds_addChild rootIds_updatePosition
         rootIds_appendMessage rootIds_setErrorState rootIds_addAssistantPlaceholder
         rootIds_appendResponseChunk rootIds_layoutEffect)
  then show ?thesis by (auto simp: rootIds_def)
qed

lemma runUI_keeps_first_root:
  "t \<noteq> [] \<Longrightarrow> runUI as t \<noteq> [] \<and> hd (rootIds (runUI as t)) = hd (rootIds t)"
proof (induction as arbitrary: t)
  case Nil
  then show ?case by simp
next
  case (Cons a as)
  show ?case
  proof (cases "offered t a")
    case True
    from offered_keeps_first_root [OF Cons.prems True] Cons.IH [of "applyAction a t"] True
    show ?thesis by simp
  next
    case False
    with Cons show ?thesis by simp
  qed
qed

text \<open>
  C7 (as stated) fails: \<open>handleDelete\<close> has no guard of its own, and called with the id
  of the root it removes the root; the initial tree becomes empty.
\<close>

theorem handleDelete_root_counterexample:
  "id (data (hd initialTree)) = 1 \<and> handleDelete 1 initialTree = []"
  by (simp add: handleDelete_def initialTree_def)

text \<open>
  C7 (amended): the tree starts with exactly one root. The root is protected by the
  interface, not by \<open>handleDelete\<close>: the delete control is not offered for the id of the
  first root, and every action that is offered in a non-empty tree leaves the tree
  non-empty with the same first root id; so after any sequence of actions passed through
  that gate, the tree that started as the initial tree still begins with the root of id 1.
\<close>

theorem root_survives_offered_actions:
  "length initialTree = 1
   \<and> \<not> offered initialTree (Delete (id (data (hd initialTree))))
   \<and> (t \<noteq> [] \<longrightarrow> offered t a \<longrightarrow>
        applyAction a t \<noteq> [] \<and> id (data (hd (applyAction a t))) = id (data (hd t)))
   \<and> runUI as initialTree \<noteq> []
   \<and> id (data (hd (runUI as initialTree))) = 1"
proof -
  have i: "initialTree \<noteq> []" "length initialTree = 1" "hd (rootIds initialTree) = 1"
    by (simp_all add: initialTree_def rootIds_def)
  have n: "\<not> offered initialTree (Delete (id (data (hd initialTree))))"
    by (simp add: initialTree_def deleteOffered_def isRoot_def)
  have hdr: "\<And>u. u \<noteq> [] \<Longrightarrow> hd (rootIds u) = id (data (hd u))"
    by (simp add: rootIds_def hd_map)
  have step: "t \<noteq> [] \<longrightarrow> offered t a \<longrightarrow>
        applyAction a t \<noteq> [] \<and> id (data (hd (applyAction a t))) = id (data (hd t))"
    using offered_keeps_first_root [of t a] hdr by auto
  from runUI_keeps_first_root [OF i(1), of as] i(3) hdr
  have "runUI as initialTree \<noteq> [] \<and> id (data (hd (runUI as initialTree))) = 1" by auto
  with i(2) n step show ?thesis by blast
qed

theorem root_survives_offered_actions_witness:
  "deleteExample \<noteq> []
   \<and> offered deleteExample (Delete 2)
   \<and> \<not> offered deleteExample (Delete 1)
   \<and> applyAction (Delete 2) deleteExample \<noteq> []
   \<and> id (data (hd (applyAction (Delete 2) deleteExample))) = 1
   \<and> map id (flatten (runUI [Delete 1, Delete 2] deleteExample)) = [1, 5]"
proof -
  have ne: "deleteExample \<noteq> []" by (simp add: deleteExample_def)
  have o: "offered deleteExample (Delete 2)"
    by (simp add: deleteExample_def branchNode_def deleteOffered_def isRoot_def)
  have no: "\<not> offered deleteExample (Delete 1)"
    by (simp add: deleteExample_def branchNode_def deleteOffered_def isRoot_def)
  have r: "id (data (hd deleteExample)) = 1" by (simp add: deleteExample_def branchNode_def)
  have run: "map id (flatten (runUI [Delete 1, Delete 2] deleteExample)) = [1, 5]"
    by (simp add: deleteExample_def branchNode_def deleteOffered_def isRoot_def handleDelete_def)
  from root_survives_offered_actions [of deleteExample "Delete 2" "[]"] ne o no r run
  show ?thesis by simp
qed

section \<open>The request handlers: status codes\<close>

lemma POST_plain_falsy_prompt:
  "b \<noteq> JNull \<Longrightarrow> \<not> truthy (field b (js ''prompt'')) \<Longrightarrow>
   POST_plain (Some b) create = Returns promptRequired"
  by (cases b) (simp_all add: POST_plain_def promptRequired_def Let_def)

lemma POST_tool_falsy_prompt:
  "b \<noteq> JNull \<Longrightarrow> \<not> truthy (field b (js ''prompt'')) \<Longrightarrow>
   POST_tool (Some b) key fetch streamText = promptRequired"
  by (cases b) (simp_all add: POST_tool_def promptRequired_def Let_def)

lemma POST_plain_truthy_prompt:
  "truthy (field b (js ''prompt'')) \<Longrightarrow>
   POST_plain (Some b) create =
     (if buildFailsPlain b then Returns internalServerError
      else (case create b of
              Throws error \<Rightarrow> catchPlain error
            | Returns chunks \<Rightarrow>
                Returns \<lparr>status = 200,
                 body = MarkdownStream
                   (concat (map (\<lambda>c. case c of None \<Rightarrow> [] | Some t \<Rightarrow> if t = [] then [] else [t])
                                chunks))\<rparr>))"
  by (cases b)
     (auto simp add: POST_plain_def Let_def buildFailsPlain_def catchPlain_def
        internalServerError_def)

lemma POST_tool_truthy_prompt:
  "truthy (field b (js ''prompt'')) \<Longrightarrow>
   POST_tool (Some b) key fetch streamText =
     (if buildFailsTool b then internalServerError
      else (case streamText (search_execute key fetch) b of
              Throws error \<Rightarrow> internalServerError
            | Returns parts \<Rightarrow> \<lparr>status = 200, body = MarkdownStream (concat (map streamed parts))\<rparr>))"
  by (cases b)
     (auto simp add: POST_tool_def Let_def buildFailsTool_def internalServerError_def
        split: Outcome.splits)

lemma POST_tool_statuses:
  "POST_tool r key fetch streamText = promptRequired
   \<or> POST_tool r key fetch streamText = internalServerError
   \<or> (\<exists>parts. POST_tool r key fetch streamText = \<lparr>status = 200, body = MarkdownStream parts\<rparr>)"
proof (cases r)
  case None
  then show ?thesis by (simp add: POST_tool_def internalServerError_def)
next
  case (Some b)
  show ?thesis
  proof (cases "b = JNull")
    case True
    with Some show ?thesis by (simp add: POST_tool_def internalServerError_def)
  next
    case False
    show ?thesis
    proof (cases "truthy (field b (js ''prompt''))")
      case True
      then show ?thesis
        by (cases "streamText (search_execute key fetch) b")
           (simp_all add: Some POST_tool_truthy_prompt)
    next
      case f: False
      from POST_tool_falsy_prompt [OF False f] show ?thesis by (simp add: Some)
    qed
  qed
qed

text \<open>
  C8 (as stated) fails twice. In the plain variant an upstream API error is answered with
  the upstream status and message, here 429, not with a generic 500. In the tool variant
  a missing \<open>PARALLEL_API_KEY\<close> makes the search tool return its error object, and the
  response is still the 200 stream.
\<close>

theorem api_chat_status_counterexample:
  "POST_plain (Some (promptBody (JStr (js ''hi'')))) rateLimited
     = Returns \<lparr>status = 429, body = Text (js ''Rate limit reached'')\<rparr>
   \<and> search_execute None searchFound (js ''news'') = ErrorMissingKey
   \<and> POST_tool (Some (promptBody (JStr (js ''hi'')))) None searchFound modelCallsSearch
     = \<lparr>status = 200, body = MarkdownStream [js ''no results'']\<rparr>"
  by (simp add: POST_plain_def POST_tool_def promptBody_def catchPlain_def newResponse_def
      convertible_def search_execute_def rateLimited_def searchFound_def modelCallsSearch_def
      js_def Let_def)

text \<open>
  C8 (amended): both variants answer 400 when the body is a JSON value other than
  \<open>null\<close> whose prompt is missing or falsy. The tool variant answers only with that
  400, with the generic 500 "Internal Server Error" (for every exception in the handler:
  a body that cannot be parsed or destructured, a value that cannot be converted to a
  string, an exception of the SDK call), or with the 200 stream; a missing search
  credential is reported inside the tool result and does not change the status. The plain
  variant answers the generic 500 for a body that cannot be parsed or destructured, for a
  value that cannot be converted to a string, for a conversation that cannot be spread
  and for every upstream exception that is not an API error; an upstream API error is
  passed through with its message and its own status, 200 if it has none, and if a
  response with a body cannot have that status the handler throws. The plain handler does
  not read its credential: the client is made from it when the module is loaded, and the
  handler exists only if that constructor returned.
\<close>

theorem api_chat_status_codes:
  "(b \<noteq> JNull \<longrightarrow> \<not> truthy (field b (js ''prompt'')) \<longrightarrow>
      POST_plain (Some b) create = Returns promptRequired
      \<and> POST_tool (Some b) key fetch streamText = promptRequired)
   \<and> status promptRequired = 400 \<and> status internalServerError = 500
   \<and> body internalServerError = Text (js ''Internal Server Error'')
   \<and> (POST_tool r key fetch streamText = promptRequired
      \<or> POST_tool r key fetch streamText = internalServerError
      \<or> (\<exists>parts. POST_tool r key fetch streamText
                  = \<lparr>status = 200, body = MarkdownStream parts\<rparr>))
   \<and> POST_tool None key fetch streamText = internalServerError
   \<and> POST_tool (Some JNull) key fetch streamText = internalServerError
   \<and> (truthy (field b (js ''prompt'')) \<longrightarrow>
        buildFailsTool b \<or> streamText (search_execute key fetch) b = Throws e \<longrightarrow>
        POST_tool (Some b) key fetch streamText = internalServerError)
   \<and> search_execute None fetch q = ErrorMissingKey
   \<and> streamed (ToolResult ErrorMissingKey) = []
   \<and> (truthy (field b (js ''prompt'')) \<longrightarrow> \<not> buildFailsTool b \<longrightarrow>
        streamText (search_execute None fetch) b = Returns parts \<longrightarrow>
        POST_tool (Some b) None fetch streamText
          = \<lparr>status = 200, body = MarkdownStream (concat (map streamed parts))\<rparr>)
   \<and> POST_plain None create = Returns internalServerError
   \<and> POST_plain (Some JNull) create = Returns internalServerError
   \<and> (truthy (field b (js ''prompt'')) \<longrightarrow> buildFailsPlain b \<longrightarrow>
        POST_plain (Some b) create = Returns internalServerError)
   \<and> (truthy (field b (js ''prompt'')) \<longrightarrow> \<not> buildFailsPlain b \<longrightarrow>
        (create b = Throws OtherError \<longrightarrow>
           POST_plain (Some b) create = Returns internalServerError)
        \<and> (create b = Throws (APIError None msg) \<longrightarrow>
           POST_plain (Some b) create = Returns \<lparr>status = 200, body = Text msg\<rparr>)
        \<and> (create b = Throws (APIError (Some n) msg) \<longrightarrow> n < 65536 \<longrightarrow>
           POST_plain (Some b) create =
             (if 200 \<le> n \<and> n \<le> 599 \<and> n \<noteq> 204 \<and> n \<noteq> 205 \<and> n \<noteq> 304
              then Returns \<lparr>status = n, body = Text msg\<rparr>
              else Throws OtherError)))
   \<and> (newOpenAI OPENAI_API_KEY = Throws e \<longrightarrow>
        module_plain OPENAI_API_KEY newOpenAI = Throws e)
   \<and> (newOpenAI OPENAI_API_KEY = Returns create \<longrightarrow>
        (\<exists>POST. module_plain OPENAI_API_KEY newOpenAI = Returns POST
                \<and> (\<forall>reqJson. POST reqJson = POST_plain reqJson create)))"
proof -
  have a: "b \<noteq> JNull \<longrightarrow> \<not> truthy (field b (js ''prompt'')) \<longrightarrow>
      POST_plain (Some b) create = Returns promptRequired
      \<and> POST_tool (Some b) key fetch streamText = promptRequired"
    by (simp add: POST_plain_falsy_prompt POST_tool_falsy_prompt)
  have s: "status promptRequired = 400" "status internalServerError = 500"
    "body internalServerError = Text (js ''Internal Server Error'')"
    by (simp_all add: promptRequired_def internalServerError_def)
  have t: "POST_tool None key fetch streamText = internalServerError"
    "POST_tool (Some JNull) key fetch streamText = internalServerError"
    by (simp_all add: POST_tool_def internalServerError_def)
  have c: "truthy (field b (js ''prompt'')) \<longrightarrow>
        buildFailsTool b \<or> streamText (search_execute key fetch) b = Throws e \<longrightarrow>
        POST_tool (Some b) key fetch streamText = internalServerError"
    by (auto simp add: POST_tool_truthy_prompt)
  have d: "search_execute None fetch q = ErrorMissingKey"
    "streamed (ToolResult ErrorMissingKey) = []"
    by (simp_all add: search_execute_def)
  have k: "truthy (field b (js ''prompt'')) \<longrightarrow> \<not> buildFailsTool b \<longrightarrow>
        streamText (search_execute None fetch) b = Returns parts \<longrightarrow>
        POST_tool (Some b) None fetch streamText
          = \<lparr>status = 200, body = MarkdownStream (concat (map streamed parts))\<rparr>"
    by (simp add: POST_tool_truthy_prompt)
  have e: "POST_plain None create = Returns internalServerError"
    "POST_plain (Some JNull) create = Returns internalServerError"
    by (simp_all add: POST_plain_def catchPlain_def internalServerError_def)
  have f: "truthy (field b (js ''prompt'')) \<longrightarrow> buildFailsPlain b \<longrightarrow>
        POST_plain (Some b) create = Returns internalServerError"
    by (simp add: POST_plain_truthy_prompt)
  have g: "truthy (field b (js ''prompt'')) \<longrightarrow> \<not> buildFailsPlain b \<longrightarrow>
        (create b = Throws OtherError \<longrightarrow>
           POST_plain (Some b) create = Returns internalServerError)
        \<and> (create b = Throws (APIError None msg) \<longrightarrow>
           POST_plain (Some b) create = Returns \<lparr>status = 200, body = Text msg\<rparr>)
        \<and> (create b = Throws (APIError (Some n) msg) \<longrightarrow> n < 65536 \<longrightarrow>
           POST_plain (Some b) create =
             (if 200 \<le> n \<and> n \<le> 599 \<and> n \<noteq> 204 \<and> n \<noteq> 205 \<and> n \<noteq> 304
              then Returns \<lparr>status = n, body = Text msg\<rparr>
              else Throws OtherError))"
    by (auto simp add: POST_plain_truthy_prompt catchPlain_def newResponse_def
        internalServerError_def Let_def)
  have m1: "newOpenAI OPENAI_API_KEY = Throws e \<longrightarrow>
        module_plain OPENAI_API_KEY newOpenAI = Throws e"
    by (simp add: module_plain_def)
  have m2: "newOpenAI OPENAI_API_KEY = Returns create \<longrightarrow>
        (\<exists>POST. module_plain OPENAI_API_KEY newOpenAI = Returns POST
                \<and> (\<forall>reqJson. POST reqJson = POST_plain reqJson create))"
    by (simp add: module_plain_def)
  from a s POST_tool_statuses [of r key fetch streamText] t c d k e f g m1 m2 show ?thesis
    by (intro conjI)
qed

theorem api_chat_status_codes_witness:
  "promptBody (JStr []) \<noteq> JNull
   \<and> \<not> truthy (field (promptBody (JStr [])) (js ''prompt''))
   \<and> POST_plain (Some (promptBody (JStr []))) (\<lambda>b. Returns []) = Returns promptRequired
   \<and> POST_tool (Some (promptBody (JStr []))) None (\<lambda>k q. NotOk 503) (\<lambda>exec b. Returns [])
       = promptRequired
   \<and> truthy (field (promptBody (JStr (js ''hi''))) (js ''prompt''))
   \<and> \<not> buildFailsPlain (promptBody (JStr (js ''hi'')))
   \<and> POST_tool (Some (promptBody (JStr (js ''hi'')))) None (\<lambda>k q. NotOk 503)
         (\<lambda>exec b. Throws OtherError)
       = internalServerError
   \<and> POST_plain (Some (promptBody (JStr (js ''hi''))))
         (\<lambda>b. Throws (APIError (Some 401) (js ''Incorrect API key'')))
       = Returns \<lparr>status = 401, body = Text (js ''Incorrect API key'')\<rparr>
   \<and> truthy (field (promptBody toStringObject) (js ''prompt''))
   \<and> buildFailsPlain (promptBody toStringObject)
   \<and> POST_plain (Some (promptBody toStringObject))
         (\<lambda>b. Throws (APIError (Some 401) (js ''Incorrect API key'')))
       = Returns internalServerError
   \<and> module_plain None (\<lambda>k. case k of None \<Rightarrow> Throws OtherError | Some v \<Rightarrow> Returns (\<lambda>b. Returns []))
       = Throws OtherError"
proof -
  have h1: "promptBody (JStr []) \<noteq> JNull"
    and h2: "\<not> truthy (field (promptBody (JStr [])) (js ''prompt''))"
    and h3: "truthy (field (promptBody (JStr (js ''hi''))) (js ''prompt''))"
    and h4: "\<not> buildFailsPlain (promptBody (JStr (js ''hi'')))"
    and h5: "truthy (field (promptBody toStringObject) (js ''prompt''))"
    and h6: "buildFailsPlain (promptBody toStringObject)"
    by (simp_all add: promptBody_def toStringObject_def buildFailsPlain_def convertible_def
        js_def)
  from api_chat_status_codes
         [where b = "promptBody (JStr [])" and create = "\<lambda>b. Returns []" and key = None
            and fetch = "\<lambda>k q. NotOk 503" and streamText = "\<lambda>exec b. Returns []"]
       h1 h2
  have a: "POST_plain (Some (promptBody (JStr []))) (\<lambda>b. Returns []) = Returns promptRequired
   \<and> POST_tool (Some (promptBody (JStr []))) None (\<lambda>k q. NotOk 503) (\<lambda>exec b. Returns [])
       = promptRequired"
    by blast
  from api_chat_status_codes
         [where b = "promptBody (JStr (js ''hi''))"
            and create = "\<lambda>b. Throws (APIError (Some 401) (js ''Incorrect API key''))"
            and key = None and fetch = "\<lambda>k q. NotOk 503"
            and streamText = "\<lambda>exec b. Throws OtherError"
            and e = OtherError and n = 401 and msg = "js ''Incorrect API key''"]
       h3 h4
  have b: "POST_tool (Some (promptBody (JStr (js ''hi'')))) None (\<lambda>k q. NotOk 503)
         (\<lambda>exec b. Throws OtherError)
       = internalServerError
   \<and> POST_plain (Some (promptBody (JStr (js ''hi''))))
         (\<lambda>b. Throws (APIError (Some 401) (js ''Incorrect API key'')))
       = Returns \<lparr>status = 401, body = Text (js ''Incorrect API key'')\<rparr>"
    by simp
  from api_chat_status_codes
         [where b = "promptBody toStringObject"
            and create = "\<lambda>b. Throws (APIError (Some 401) (js ''Incorrect API key''))"]
       h5 h6
  have c: "POST_plain (Some (promptBody toStringObject))
         (\<lambda>b. Throws (APIError (Some 401) (js ''Incorrect API key'')))
       = Returns internalServerError"
    by blast
  from api_chat_status_codes
         [where OPENAI_API_KEY = None and e = OtherError
            and newOpenAI = "\<lambda>k. case k of None \<Rightarrow> Throws OtherError
                                    | Some v \<Rightarrow> Returns (\<lambda>b. Returns [])"]
  have d: "module_plain None
             (\<lambda>k. case k of None \<Rightarrow> Throws OtherError | Some v \<Rightarrow> Returns (\<lambda>b. Returns []))
       = Throws OtherError"
    by simp
  from a b c d h1 h2 h3 h4 h5 h6 show ?thesis by (intro conjI) blast+
qed

text \<open>
  C10: in both variants a prompt that is present but the empty string is answered with
  400, as is every other falsy prompt, because the check is \<open>!prompt\<close>. A truthy prompt
  of any type, a number or an object as well as a string, passes that check: it is never
  answered with the "Prompt is required" response. What follows the check decides the
  answer: when the user message can be built and the upstream call returns, it is the 200
  stream; a truthy prompt that cannot be converted to a string, as the object
  \<open>{"toString": 1}\<close>, is answered with the generic 500, whatever the upstream service
  would do.
\<close>

theorem api_chat_prompt_is_checked_for_falsiness:
  "(field b (js ''prompt'') = Some (JStr []) \<longrightarrow>
      POST_plain (Some b) create = Returns promptRequired
      \<and> POST_tool (Some b) key fetch streamText = promptRequired)
   \<and> (b \<noteq> JNull \<longrightarrow> \<not> truthy (field b (js ''prompt'')) \<longrightarrow>
      POST_plain (Some b) create = Returns promptRequired
      \<and> POST_tool (Some b) key fetch streamText = promptRequired)
   \<and> status promptRequired = 400
   \<and> (truthy (field b (js ''prompt'')) \<longrightarrow>
        POST_plain (Some b) create \<noteq> Returns promptRequired
        \<and> POST_tool (Some b) key fetch streamText \<noteq> promptRequired
        \<and> (\<not> buildFailsPlain b \<longrightarrow> create b = Returns chunks \<longrightarrow>
             (\<exists>r. POST_plain (Some b) create = Returns r \<and> status r = 200))
        \<and> (\<not> buildFailsTool b \<longrightarrow> streamText (search_execute key fetch) b = Returns parts \<longrightarrow>
             status (POST_tool (Some b) key fetch streamText) = 200)
        \<and> (\<not> convertible (field b (js ''prompt'')) \<longrightarrow>
             POST_plain (Some b) create = Returns internalServerError
             \<and> POST_tool (Some b) key fetch streamText = internalServerError
             \<and> status internalServerError = 500))"
proof -
  have falsy: "b \<noteq> JNull \<longrightarrow> \<not> truthy (field b (js ''prompt'')) \<longrightarrow>
      POST_plain (Some b) create = Returns promptRequired
      \<and> POST_tool (Some b) key fetch streamText = promptRequired"
    by (simp add: POST_plain_falsy_prompt POST_tool_falsy_prompt)
  have empty: "field b (js ''prompt'') = Some (JStr []) \<longrightarrow>
      POST_plain (Some b) create = Returns promptRequired
      \<and> POST_tool (Some b) key fetch streamText = promptRequired"
  proof
    assume p: "field b (js ''prompt'') = Some (JStr [])"
    then have nn: "b \<noteq> JNull" by auto
    from p have f: "\<not> truthy (field b (js ''prompt''))" by simp
    from POST_plain_falsy_prompt [OF nn f] POST_tool_falsy_prompt [OF nn f]
    show "POST_plain (Some b) create = Returns promptRequired
      \<and> POST_tool (Some b) key fetch streamText = promptRequired" by simp
  qed
  have st: "status promptRequired = 400"
    by (simp add: promptRequired_def)
  have pass: "truthy (field b (js ''prompt'')) \<longrightarrow>
        POST_plain (Some b) create \<noteq> Returns promptRequired
        \<and> POST_tool (Some b) key fetch streamText \<noteq> promptRequired
        \<and> (\<not> buildFailsPlain b \<longrightarrow> create b = Returns chunks \<longrightarrow>
             (\<exists>r. POST_plain (Some b) create = Returns r \<and> status r = 200))
        \<and> (\<not> buildFailsTool b \<longrightarrow> streamText (search_execute key fetch) b = Returns parts \<longrightarrow>
             status (POST_tool (Some b) key fetch streamText) = 200)
        \<and> (\<not> convertible (field b (js ''prompt'')) \<longrightarrow>
             POST_plain (Some b) create = Returns internalServerError
             \<and> POST_tool (Some b) key fetch streamText = internalServerError
             \<and> status internalServerError = 500)"
  proof
    assume tr: "truthy (field b (js ''prompt''))"
    have p1: "POST_plain (Some b) create \<noteq> Returns promptRequired"
      by (auto simp add: POST_plain_truthy_prompt [OF tr] catchPlain_def newResponse_def
          promptRequired_def internalServerError_def Let_def
          split: Outcome.splits Thrown.splits option.splits if_splits)
    have p2: "POST_tool (Some b) key fetch streamText \<noteq> promptRequired"
      by (auto simp add: POST_tool_truthy_prompt [OF tr] promptRequired_def
          internalServerError_def split: Outcome.splits)
    have p3: "\<not> buildFailsPlain b \<longrightarrow> create b = Returns chunks \<longrightarrow>
             (\<exists>r. POST_plain (Some b) create = Returns r \<and> status r = 200)"
      by (simp add: POST_plain_truthy_prompt [OF tr])
    have p4: "\<not> buildFailsTool b \<longrightarrow> streamText (search_execute key fetch) b = Returns parts \<longrightarrow>
             status (POST_tool (Some b) key fetch streamText) = 200"
      by (simp add: POST_tool_truthy_prompt [OF tr])
    have p5: "\<not> convertible (field b (js ''prompt'')) \<longrightarrow>
             POST_plain (Some b) create = Returns internalServerError
             \<and> POST_tool (Some b) key fetch streamText = internalServerError
             \<and> status internalServerError = 500"
      by (simp add: POST_plain_truthy_prompt [OF tr] POST_tool_truthy_prompt [OF tr]
          buildFailsPlain_def buildFailsTool_def internalServerError_def)
    from p1 p2 p3 p4 p5
    show "POST_plain (Some b) create \<noteq> Returns promptRequired
        \<and> POST_tool (Some b) key fetch streamText \<noteq> promptRequired
        \<and> (\<not> buildFailsPlain b \<longrightarrow> create b = Returns chunks \<longrightarrow>
             (\<exists>r. POST_plain (Some b) create = Returns r \<and> status r = 200))
        \<and> (\<not> buildFailsTool b \<longrightarrow> streamText (search_execute key fetch) b = Returns parts \<longrightarrow>
             status (POST_tool (Some b) key fetch streamText) = 200)
        \<and> (\<not> convertible (field b (js ''prompt'')) \<longrightarrow>
             POST_plain (Some b) create = Returns internalServerError
             \<and> POST_tool (Some b) key fetch streamText = internalServerError
             \<and> status internalServerError = 500)"
      by (intro conjI)
  qed
  from empty falsy st pass show ?thesis by (intro conjI)
qed

theorem api_chat_prompt_is_checked_for_falsiness_witness:
  "field (promptBody (JStr [])) (js ''prompt'') = Some (JStr [])
   \<and> POST_plain (Some (promptBody (JStr []))) (\<lambda>b. Returns [Some (js ''ok'')])
       = Returns promptRequired
   \<and> POST_tool (Some (promptBody (JStr []))) None (\<lambda>k q. NotOk 503)
               (\<lambda>exec b. Returns [TextDelta (js ''ok'')]) = promptRequired
   \<and> promptBody (JNum 0) \<noteq> JNull
   \<and> \<not> truthy (field (promptBody (JNum 0)) (js ''prompt''))
   \<and> POST_plain (Some (promptBody (JNum 0))) (\<lambda>b. Returns [Some (js ''ok'')])
       = Returns promptRequired
   \<and> truthy (field (promptBody (JNum 5)) (js ''prompt''))
   \<and> \<not> isString (field (promptBody (JNum 5)) (js ''prompt''))
   \<and> \<not> buildFailsPlain (promptBody (JNum 5))
   \<and> \<not> buildFailsTool (promptBody (JNum 5))
   \<and> (\<exists>r. POST_plain (Some (promptBody (JNum 5))) (\<lambda>b. Returns [Some (js ''ok'')]) = Returns r
          \<and> status r = 200)
   \<and> status (POST_tool (Some (promptBody (JNum 5))) None (\<lambda>k q. NotOk 503)
               (\<lambda>exec b. Returns [TextDelta (js ''ok'')])) = 200
   \<and> truthy (field (promptBody toStringObject) (js ''prompt''))
   \<and> \<not> convertible (field (promptBody toStringObject) (js ''prompt''))
   \<and> POST_plain (Some (promptBody toStringObject)) (\<lambda>b. Returns [Some (js ''ok'')])
       = Returns internalServerError
   \<and> POST_tool (Some (promptBody toStringObject)) None (\<lambda>k q. NotOk 503)
               (\<lambda>exec b. Returns [TextDelta (js ''ok'')]) = internalServerError"
proof -
  have h1: "field (promptBody (JStr [])) (js ''prompt'') = Some (JStr [])"
    and h2: "truthy (field (promptBody (JNum 5)) (js ''prompt''))"
    and h3: "\<not> isString (field (promptBody (JNum 5)) (js ''prompt''))"
    and h4: "\<not> buildFailsPlain (promptBody (JNum 5))"
    and h5: "\<not> buildFailsTool (promptBody (JNum 5))"
    and h6: "truthy (field (promptBody toStringObject) (js ''prompt''))"
    and h7: "\<not> convertible (field (promptBody toStringObject) (js ''prompt''))"
    and h8: "promptBody (JNum 0) \<noteq> JNull"
    and h9: "\<not> truthy (field (promptBody (JNum 0)) (js ''prompt''))"
    by (simp_all add: promptBody_def toStringObject_def buildFailsPlain_def buildFailsTool_def
        convertible_def js_def)
  from api_chat_prompt_is_checked_for_falsiness
         [where b = "promptBody (JStr [])" and create = "\<lambda>b. Returns [Some (js ''ok'')]"
            and key = None and fetch = "\<lambda>k q. NotOk 503"
            and streamText = "\<lambda>exec b. Returns [TextDelta (js ''ok'')]"] h1
  have a: "POST_plain (Some (promptBody (JStr []))) (\<lambda>b. Returns [Some (js ''ok'')])
       = Returns promptRequired
   \<and> POST_tool (Some (promptBody (JStr []))) None (\<lambda>k q. NotOk 503)
               (\<lambda>exec b. Returns [TextDelta (js ''ok'')]) = promptRequired"
    by blast
  from api_chat_prompt_is_checked_for_falsiness
         [where b = "promptBody (JNum 0)" and create = "\<lambda>b. Returns [Some (js ''ok'')]"] h8 h9
  have z: "POST_plain (Some (promptBody (JNum 0))) (\<lambda>b. Returns [Some (js ''ok'')])
       = Returns promptRequired"
    by blast
  from api_chat_prompt_is_checked_for_falsiness
         [where b = "promptBody (JNum 5)" and create = "\<lambda>b. Returns [Some (js ''ok'')]"
            and key = None and fetch = "\<lambda>k q. NotOk 503"
            and streamText = "\<lambda>exec b. Returns [TextDelta (js ''ok'')]"
            and chunks = "[Some (js ''ok'')]" and parts = "[TextDelta (js ''ok'')]"]
       h2 h4 h5
  have b: "(\<exists>r. POST_plain (Some (promptBody (JNum 5))) (\<lambda>b. Returns [Some (js ''ok'')]) = Returns r
          \<and> status r = 200)
   \<and> status (POST_tool (Some (promptBody (JNum 5))) None (\<lambda>k q. NotOk 503)
               (\<lambda>exec b. Returns [TextDelta (js ''ok'')])) = 200"
    by simp
  from api_chat_prompt_is_checked_for_falsiness
         [where b = "promptBody toStringObject" and create = "\<lambda>b. Returns [Some (js ''ok'')]"
            and key = None and fetch = "\<lambda>k q. NotOk 503"
            and streamText = "\<lambda>exec b. Returns [TextDelta (js ''ok'')]"]
       h6 h7
  have c: "POST_plain (Some (promptBody toStringObject)) (\<lambda>b. Returns [Some (js ''ok'')])
       = Returns internalServerError
   \<and> POST_tool (Some (promptBody toStringObject)) None (\<lambda>k q. NotOk 503)
               (\<lambda>exec b. Returns [TextDelta (js ''ok'')]) = internalServerError"
    by blast
  from a z b c h1 h2 h3 h4 h5 h6 h7 h8 h9 show ?thesis by (intro conjI) blast+
qed

end
